theory Spec2Isabelle
  imports Complex_Main "HOL-Library.Sublist"
begin

section \<open>Strings of the source language\<close>

text \<open>
  A TypeScript string is a sequence of UTF-16 code units, and \<open>length\<close>, \<open>slice\<close>,
  \<open>split\<close> and the regular expressions of \<open>src/ollama.ts\<close> (none of which carries the
  \<open>u\<close> flag) all work on code units. A string is therefore a list of code units, each
  the number of the unit (0 to 65535). No function below does arithmetic on a code
  unit: units are only compared with constants, so the numbers are integers and no
  theorem depends on their bound. \<open>js\<close> embeds an ASCII literal.
\<close>

type_synonym jschar = int
type_synonym jsstring = "jschar list"

definition js :: "string \<Rightarrow> jsstring" where
  "js s = map of_char s"

text \<open>
  \<open>WhiteSpace\<close> and \<open>LineTerminator\<close> of ECMAScript: the code units removed by
  \<open>String.prototype.trim\<close> and matched by the class \<open>\s\<close>.
\<close>

definition isWhiteSpace :: "jschar \<Rightarrow> bool" where
  "isWhiteSpace c \<longleftrightarrow>
     c \<in> {0x09, 0x0A, 0x0B, 0x0C, 0x0D, 0x20, 0xA0, 0x1680,
          0x2000, 0x2001, 0x2002, 0x2003, 0x2004, 0x2005, 0x2006, 0x2007, 0x2008, 0x2009, 0x200A,
          0x2028, 0x2029, 0x202F, 0x205F, 0x3000, 0xFEFF}"

definition trim :: "jsstring \<Rightarrow> jsstring" where
  "trim s = rev (dropWhile isWhiteSpace (rev (dropWhile isWhiteSpace s)))"

text \<open>The class \<open>\d\<close> without the \<open>u\<close> flag: the ten ASCII digits.\<close>

definition isDigit :: "jschar \<Rightarrow> bool" where
  "isDigit c \<longleftrightarrow> c \<in> {0x30, 0x31, 0x32, 0x33, 0x34, 0x35, 0x36, 0x37, 0x38, 0x39}"

text \<open>
  Matching under the \<open>i\<close> flag (no \<open>u\<close> flag). Every pattern letter of the source is an
  ASCII letter, written here in lower case; the only code units that canonicalise to
  the same upper-case letter are the letter itself and its ASCII capital, 32 below.
\<close>

definition ciChar :: "jschar \<Rightarrow> jschar \<Rightarrow> bool" where
  "ciChar p c \<longleftrightarrow> c = p \<or> (0x61 \<le> p \<and> p \<le> 0x7A \<and> c = p - 0x20)"

fun prefixCI :: "jsstring \<Rightarrow> jsstring \<Rightarrow> bool" where
  "prefixCI [] s = True"
| "prefixCI (p # ps) [] = False"
| "prefixCI (p # ps) (c # cs) = (ciChar p c \<and> prefixCI ps cs)"

definition openTag :: jsstring where
  "openTag = js ''<think>''"

definition closeTag :: jsstring where
  "closeTag = js ''</think>''"

text \<open>\<open>s.includes(p)\<close>.\<close>

fun includesStr :: "jsstring \<Rightarrow> jsstring \<Rightarrow> bool" where
  "includesStr [] p = (p = [])"
| "includesStr (c # cs) p = (prefix p (c # cs) \<or> includesStr cs p)"

text \<open>\<open>s.split("\n")\<close>: never empty, \<open>"".split("\n")\<close> is \<open>[""]\<close>.\<close>

fun splitNewline :: "jsstring \<Rightarrow> jsstring list" where
  "splitNewline [] = [[]]"
| "splitNewline (c # cs) =
     (if c = 0x0A then [] # splitNewline cs
      else (case splitNewline cs of [] \<Rightarrow> [[c]] | l # ls \<Rightarrow> (c # l) # ls))"

text \<open>\<open>lines.join("\n")\<close>.\<close>

fun joinNewline :: "jsstring list \<Rightarrow> jsstring" where
  "joinNewline [] = []"
| "joinNewline [l] = l"
| "joinNewline (l # m # ls) = l @ 0x0A # joinNewline (m # ls)"

text \<open>
  \<open>s.split(/\n{3,}/)\<close>: the quantifier is greedy, so a run of three or more line feeds
  is one separator and a shorter run stays inside its piece.
\<close>

function splitBlankRuns :: "jsstring \<Rightarrow> jsstring list" where
  "splitBlankRuns [] = [[]]"
| "splitBlankRuns (c # cs) =
     (if 3 \<le> length (takeWhile (\<lambda>x. x = 0x0A) (c # cs))
      then [] # splitBlankRuns (dropWhile (\<lambda>x. x = 0x0A) cs)
      else (case splitBlankRuns cs of [] \<Rightarrow> [[c]] | l # ls \<Rightarrow> (c # l) # ls))"
  by pat_completeness auto
termination
  by (relation "measure length") (auto simp: length_dropWhile_le less_Suc_eq_le)

section \<open>The candidate cleaner\<close>

text \<open>\<open>cleaned.replace(/^\d+[\.\)\:]\s*/, "")\<close>\<close>

definition stripNumbering :: "jsstring \<Rightarrow> jsstring" where
  "stripNumbering s =
     (case dropWhile isDigit s of
        [] \<Rightarrow> s
      | c # cs \<Rightarrow>
          if takeWhile isDigit s \<noteq> [] \<and> c \<in> {0x2E, 0x29, 0x3A}
          then dropWhile isWhiteSpace cs else s)"

text \<open>\<open>cleaned.replace(/^[-\*\u2022]\s*/, "")\<close>\<close>

definition isBulletChar :: "jschar \<Rightarrow> bool" where
  "isBulletChar c \<longleftrightarrow> c \<in> {0x2D, 0x2A, 0x2022}"

definition stripBullet :: "jsstring \<Rightarrow> jsstring" where
  "stripBullet s =
     (case s of
        [] \<Rightarrow> []
      | c # cs \<Rightarrow> if isBulletChar c then dropWhile isWhiteSpace cs else s)"

text \<open>
  \<open>cleaned.replace(/^[X]+|[X]+$/g, "")\<close> for a character class \<open>X\<close>: the global
  replacement deletes the leading run of the class and then, in what is left, the
  trailing run.
\<close>

definition stripWrapping :: "(jschar \<Rightarrow> bool) \<Rightarrow> jsstring \<Rightarrow> jsstring" where
  "stripWrapping X s = rev (dropWhile X (rev (dropWhile X s)))"

definition isQuoteChar :: "jschar \<Rightarrow> bool" where
  "isQuoteChar c \<longleftrightarrow> c \<in> {0x22, 0x27, 0x60}"

definition isEmphasisChar :: "jschar \<Rightarrow> bool" where
  "isEmphasisChar c \<longleftrightarrow> c \<in> {0x60, 0x2A, 0x5F}"

text \<open>
  \<open>cleaned.replace(/<\/?think>/gi, "")\<close>: one scan from the left; the text after a
  deleted tag is scanned on, the text before it is not scanned again.
\<close>

fun removeThinkTags :: "jsstring \<Rightarrow> jsstring" where
  "removeThinkTags [] = []"
| "removeThinkTags (c # cs) =
     (if prefixCI openTag (c # cs) then removeThinkTags (drop 6 cs)
      else if prefixCI closeTag (c # cs) then removeThinkTags (drop 7 cs)
      else c # removeThinkTags cs)"

definition cleanCandidate :: "jsstring \<Rightarrow> jsstring" where
  "cleanCandidate text =
     (let cleaned = trim text;
          cleaned = stripNumbering cleaned;
          cleaned = stripBullet cleaned;
          cleaned = stripWrapping isQuoteChar cleaned;
          cleaned = stripWrapping isEmphasisChar cleaned;
          cleaned = removeThinkTags cleaned;
          cleaned = trim cleaned
      in if length cleaned = 0 then [] else cleaned)"

section \<open>\<open>JSON.parse\<close>\<close>

text \<open>
  \<open>JSON.parse\<close> is a built-in of the language. It is modelled after the JSON grammar of
  ECMA-404, which it implements: a lexer and a parser over the tokens, both total.
  The source never reads the value of a number (it only asks whether an array element
  is a string), so a number keeps its lexeme. An object keeps its members in source
  order; where a key occurs twice, \<open>JSON.parse\<close> keeps the last value.
\<close>

datatype json =
    JNull
  | JBool bool
  | JNumber jsstring
  | JString jsstring
  | JArray "json list"
  | JObject "(jsstring \<times> json) list"

datatype token = TLBracket | TRBracket | TLBrace | TRBrace | TComma | TColon | TScalar json

definition isJsonSpace :: "jschar \<Rightarrow> bool" where
  "isJsonSpace c \<longleftrightarrow> c \<in> {0x20, 0x09, 0x0A, 0x0D}"

definition hexVal :: "jschar \<Rightarrow> int option" where
  "hexVal c =
     (if 0x30 \<le> c \<and> c \<le> 0x39 then Some (c - 0x30)
      else if 0x41 \<le> c \<and> c \<le> 0x46 then Some (c - 0x37)
      else if 0x61 \<le> c \<and> c \<le> 0x66 then Some (c - 0x57)
      else None)"

definition escapeChar :: "jschar \<Rightarrow> jschar option" where
  "escapeChar e =
     (if e = 0x22 then Some 0x22
      else if e = 0x5C then Some 0x5C
      else if e = 0x2F then Some 0x2F
      else if e = 0x62 then Some 0x08
      else if e = 0x66 then Some 0x0C
      else if e = 0x6E then Some 0x0A
      else if e = 0x72 then Some 0x0D
      else if e = 0x74 then Some 0x09
      else None)"

definition consResult :: "jschar \<Rightarrow> (jsstring \<times> jsstring) option \<Rightarrow> (jsstring \<times> jsstring) option" where
  "consResult c r = (case r of None \<Rightarrow> None | Some (v, rest) \<Rightarrow> Some (c # v, rest))"

text \<open>
  The characters of a string literal after its opening quote: the decoded string and
  the text after the closing quote. A control character must be escaped.
\<close>

fun scanString :: "jsstring \<Rightarrow> (jsstring \<times> jsstring) option" where
  "scanString [] = None"
| "scanString (c # cs) =
     (if c = 0x22 then Some ([], cs)
      else if c = 0x5C then
        (case cs of
           [] \<Rightarrow> None
         | e # es \<Rightarrow>
             if e = 0x75 then
               (case es of
                  h1 # h2 # h3 # h4 # rest \<Rightarrow>
                    (case (hexVal h1, hexVal h2, hexVal h3, hexVal h4) of
                       (Some a, Some b, Some x, Some d) \<Rightarrow>
                         consResult (((a * 16 + b) * 16 + x) * 16 + d) (scanString rest)
                     | _ \<Rightarrow> None)
                | _ \<Rightarrow> None)
             else
               (case escapeChar e of
                  None \<Rightarrow> None
                | Some x \<Rightarrow> consResult x (scanString es)))
      else if c < 0x20 then None
      else consResult c (scanString cs))"

text \<open>
  A number: \<open>-? (0 | [1-9][0-9]*) (. [0-9]+)? ([eE] [+-]? [0-9]+)?\<close>; the lexeme and the
  text after it.
\<close>

definition scanInt :: "jsstring \<Rightarrow> (jsstring \<times> jsstring) option" where
  "scanInt s =
     (case s of
        [] \<Rightarrow> None
      | c # cs \<Rightarrow>
          if c = 0x30 then Some ([c], cs)
          else if isDigit c then Some (c # takeWhile isDigit cs, dropWhile isDigit cs)
          else None)"

definition scanFrac :: "jsstring \<Rightarrow> (jsstring \<times> jsstring) option" where
  "scanFrac s =
     (case s of
        c # cs \<Rightarrow>
          if c = 0x2E then
            (if takeWhile isDigit cs = [] then None
             else Some (c # takeWhile isDigit cs, dropWhile isDigit cs))
          else Some ([], s)
      | [] \<Rightarrow> Some ([], s))"

definition scanExp :: "jsstring \<Rightarrow> (jsstring \<times> jsstring) option" where
  "scanExp s =
     (case s of
        c # cs \<Rightarrow>
          if c = 0x65 \<or> c = 0x45 then
            (let sign = (case cs of d # ds \<Rightarrow> if d = 0x2B \<or> d = 0x2D then [d] else [] | [] \<Rightarrow> []);
                 ds = drop (length sign) cs
             in if takeWhile isDigit ds = [] then None
                else Some (c # sign @ takeWhile isDigit ds, dropWhile isDigit ds))
          else Some ([], s)
      | [] \<Rightarrow> Some ([], s))"

definition scanNumber :: "jsstring \<Rightarrow> (jsstring \<times> jsstring) option" where
  "scanNumber s =
     (let sign = (case s of c # cs \<Rightarrow> if c = 0x2D then [c] else [] | [] \<Rightarrow> [])
      in case scanInt (drop (length sign) s) of
           None \<Rightarrow> None
         | Some (i, s1) \<Rightarrow>
             (case scanFrac s1 of
                None \<Rightarrow> None
              | Some (f, s2) \<Rightarrow>
                  (case scanExp s2 of
                     None \<Rightarrow> None
                   | Some (e, s3) \<Rightarrow> Some (sign @ i @ f @ e, s3))))"

definition consToken :: "token \<Rightarrow> token list option \<Rightarrow> token list option" where
  "consToken t r = (case r of None \<Rightarrow> None | Some ts \<Rightarrow> Some (t # ts))"

lemma consResult_length:
  "consResult c r = Some (v, rest) \<Longrightarrow> \<exists>v'. r = Some (v', rest)"
  by (auto simp: consResult_def split: option.splits)

lemma scanString_length: "scanString s = Some (v, rest) \<Longrightarrow> length rest \<le> length s"
proof (induction "length s" arbitrary: s v rule: less_induct)
  case less
  show ?case
  proof (cases s)
    case Nil
    with less.prems show ?thesis by simp
  next
    case (Cons c cs)
    consider (quote) "c = 0x22" | (esc) "c \<noteq> 0x22" "c = 0x5C" | (plain) "c \<noteq> 0x22" "c \<noteq> 0x5C"
      by blast
    then show ?thesis
    proof cases
      case quote
      with Cons less.prems show ?thesis by simp
    next
      case plain
      with Cons less.prems have "consResult c (scanString cs) = Some (v, rest)"
        by (simp split: if_splits)
      then obtain v' where "scanString cs = Some (v', rest)"
        by (blast dest: consResult_length)
      from less.hyps [OF _ this] Cons show ?thesis by simp
    next
      case esc
      with Cons less.prems obtain e es where cs: "cs = e # es"
        by (cases cs) auto
      show ?thesis
      proof (cases "e = 0x75")
        case True
        with esc Cons cs less.prems obtain h1 h2 h3 h4 r' where es: "es = h1 # h2 # h3 # h4 # r'"
          by (cases es rule: scanString.cases; simp split: list.splits)
        with True esc Cons cs less.prems obtain x where "consResult x (scanString r') = Some (v, rest)"
          by (simp split: option.splits)
        then obtain v' where "scanString r' = Some (v', rest)"
          by (blast dest: consResult_length)
        from less.hyps [OF _ this] Cons cs es show ?thesis by simp
      next
        case False
        with esc Cons cs less.prems obtain x where "consResult x (scanString es) = Some (v, rest)"
          by (simp split: option.splits)
        then obtain v' where "scanString es = Some (v', rest)"
          by (blast dest: consResult_length)
        from less.hyps [OF _ this] Cons cs show ?thesis by simp
      qed
    qed
  qed
qed

lemma scanNumber_length:
  assumes "scanNumber s = Some (v, rest)"
  shows "length rest < length s"
proof -
  have i: "scanInt t = Some (a, r) \<Longrightarrow> length r < length t" for t a r
    by (auto simp: scanInt_def length_dropWhile_le less_Suc_eq_le split: list.splits if_splits)
  have d: "length (dropWhile isDigit u) \<le> Suc (Suc (length u))"
    and d': "length (dropWhile isDigit u) \<le> Suc (length u)" for u :: jsstring
    using length_dropWhile_le [of isDigit u] by simp_all
  have f: "scanFrac t = Some (a, r) \<Longrightarrow> length r \<le> length t" for t a r
    by (auto simp: scanFrac_def d' split: list.splits if_splits)
  have e: "scanExp t = Some (a, r) \<Longrightarrow> length r \<le> length t" for t a r
    by (auto simp: scanExp_def Let_def d d' split: list.splits if_splits)
  from assms obtain a s1 b s2 c where
    "scanInt (drop (length (case s of c # cs \<Rightarrow> if c = 0x2D then [c] else [] | [] \<Rightarrow> [])) s) = Some (a, s1)"
    "scanFrac s1 = Some (b, s2)" "scanExp s2 = Some (c, rest)"
    by (auto simp: scanNumber_def Let_def split: option.splits)
  from i [OF this(1)] f [OF this(2)] e [OF this(3)] show ?thesis
    by simp
qed

function tokenize :: "jsstring \<Rightarrow> token list option" where
  "tokenize [] = Some []"
| "tokenize (c # cs) =
     (if isJsonSpace c then tokenize cs
      else if c = 0x5B then consToken TLBracket (tokenize cs)
      else if c = 0x5D then consToken TRBracket (tokenize cs)
      else if c = 0x7B then consToken TLBrace (tokenize cs)
      else if c = 0x7D then consToken TRBrace (tokenize cs)
      else if c = 0x2C then consToken TComma (tokenize cs)
      else if c = 0x3A then consToken TColon (tokenize cs)
      else if c = 0x22 then
        (case scanString cs of
           None \<Rightarrow> None
         | Some (v, rest) \<Rightarrow> consToken (TScalar (JString v)) (tokenize rest))
      else if c = 0x2D \<or> isDigit c then
        (case scanNumber (c # cs) of
           None \<Rightarrow> None
         | Some (v, rest) \<Rightarrow> consToken (TScalar (JNumber v)) (tokenize rest))
      else if prefix (js ''true'') (c # cs) then consToken (TScalar (JBool True)) (tokenize (drop 3 cs))
      else if prefix (js ''false'') (c # cs) then consToken (TScalar (JBool False)) (tokenize (drop 4 cs))
      else if prefix (js ''null'') (c # cs) then consToken (TScalar JNull) (tokenize (drop 3 cs))
      else None)"
  by pat_completeness auto
termination
  by (relation "measure length")
     (auto simp: less_Suc_eq_le dest: scanString_length scanNumber_length)

text \<open>
  The parser reads the tokens from left to right and keeps the open arrays and objects
  on a stack, the innermost first.
\<close>

datatype frame =
    InArray "json list"
  | InObject "(jsstring \<times> json) list"
  | InMember "(jsstring \<times> json) list" jsstring

datatype expect = WantValue | ArrayStart | ObjectStart | WantKey | WantColon | AfterValue

datatype pstate = Parsing expect "frame list" | Parsed json

fun deliver :: "json \<Rightarrow> frame list \<Rightarrow> pstate option" where
  "deliver v [] = Some (Parsed v)"
| "deliver v (InArray xs # fs) = Some (Parsing AfterValue (InArray (xs @ [v]) # fs))"
| "deliver v (InMember kvs k # fs) = Some (Parsing AfterValue (InObject (kvs @ [(k, v)]) # fs))"
| "deliver v (InObject kvs # fs) = None"

fun startValue :: "token \<Rightarrow> frame list \<Rightarrow> pstate option" where
  "startValue (TScalar v) fs = deliver v fs"
| "startValue TLBracket fs = Some (Parsing ArrayStart (InArray [] # fs))"
| "startValue TLBrace fs = Some (Parsing ObjectStart (InObject [] # fs))"
| "startValue _ fs = None"

fun startKey :: "token \<Rightarrow> frame list \<Rightarrow> pstate option" where
  "startKey (TScalar (JString k)) (InObject kvs # fs) = Some (Parsing WantColon (InMember kvs k # fs))"
| "startKey _ _ = None"

fun afterValue :: "token \<Rightarrow> frame list \<Rightarrow> pstate option" where
  "afterValue TComma (InArray xs # fs) = Some (Parsing WantValue (InArray xs # fs))"
| "afterValue TComma (InObject kvs # fs) = Some (Parsing WantKey (InObject kvs # fs))"
| "afterValue TRBracket (InArray xs # fs) = deliver (JArray xs) fs"
| "afterValue TRBrace (InObject kvs # fs) = deliver (JObject kvs) fs"
| "afterValue _ _ = None"

fun pstep :: "pstate \<Rightarrow> token \<Rightarrow> pstate option" where
  "pstep (Parsed v) t = None"
| "pstep (Parsing WantValue fs) t = startValue t fs"
| "pstep (Parsing ArrayStart fs) t = (if t = TRBracket then afterValue t fs else startValue t fs)"
| "pstep (Parsing ObjectStart fs) t = (if t = TRBrace then afterValue t fs else startKey t fs)"
| "pstep (Parsing WantKey fs) t = startKey t fs"
| "pstep (Parsing WantColon fs) t = (if t = TColon then Some (Parsing WantValue fs) else None)"
| "pstep (Parsing AfterValue fs) t = afterValue t fs"

fun psteps :: "pstate \<Rightarrow> token list \<Rightarrow> pstate option" where
  "psteps st [] = Some st"
| "psteps st (t # ts) = (case pstep st t of None \<Rightarrow> None | Some st' \<Rightarrow> psteps st' ts)"

text \<open>\<open>JSON.parse(text)\<close>: \<open>None\<close> where it throws a \<open>SyntaxError\<close>.\<close>

definition JSON_parse :: "jsstring \<Rightarrow> json option" where
  "JSON_parse text =
     (case tokenize text of
        None \<Rightarrow> None
      | Some ts \<Rightarrow>
          (case psteps (Parsing WantValue []) ts of
             Some (Parsed v) \<Rightarrow> Some v
           | _ \<Rightarrow> None))"

section \<open>The response normalizer\<close>

text \<open>
  \<open>raw.replace(/<think>[\s\S]*?<\/think>/gi, "")\<close>. \<open>findClose s\<close> is the text after
  the first closing tag of \<open>s\<close>. An opening tag with no closing tag after it matches
  nothing and stays.
\<close>

fun findClose :: "jsstring \<Rightarrow> jsstring option" where
  "findClose [] = None"
| "findClose (c # cs) = (if prefixCI closeTag (c # cs) then Some (drop 7 cs) else findClose cs)"

lemma findClose_length: "findClose s = Some r \<Longrightarrow> length r \<le> length s"
  by (induction s) (auto split: if_splits)

function stripThinkBlocks :: "jsstring \<Rightarrow> jsstring" where
  "stripThinkBlocks [] = []"
| "stripThinkBlocks (c # cs) =
     (if prefixCI openTag (c # cs) then
        (case findClose (drop 6 cs) of
           Some rest \<Rightarrow> stripThinkBlocks rest
         | None \<Rightarrow> c # stripThinkBlocks cs)
      else c # stripThinkBlocks cs)"
  by pat_completeness auto
termination
proof (relation "measure length")
  fix c :: jschar and cs rest :: jsstring
  assume "findClose (drop 6 cs) = Some rest"
  from findClose_length [OF this] show "(rest, c # cs) \<in> measure length"
    by simp
qed auto

text \<open>
  \<open>raw.match(/```(?:json)?\s*([\s\S]*?)```/i)\<close>, the text of group 1. The match starts
  at the first fence; the group runs from after the optional tag and white space up to
  the next fence. With no second fence there is no match.
\<close>

definition fence :: jsstring where
  "fence = js ''```''"

fun afterFirst :: "jsstring \<Rightarrow> jsstring \<Rightarrow> jsstring option" where
  "afterFirst p [] = (if p = [] then Some [] else None)"
| "afterFirst p (c # cs) = (if prefix p (c # cs) then Some (drop (length p) (c # cs)) else afterFirst p cs)"

fun beforeFirst :: "jsstring \<Rightarrow> jsstring \<Rightarrow> jsstring option" where
  "beforeFirst p [] = (if p = [] then Some [] else None)"
| "beforeFirst p (c # cs) =
     (if prefix p (c # cs) then Some []
      else (case beforeFirst p cs of None \<Rightarrow> None | Some b \<Rightarrow> Some (c # b)))"

definition fencedGroup :: "jsstring \<Rightarrow> jsstring option" where
  "fencedGroup raw =
     (case afterFirst fence raw of
        None \<Rightarrow> None
      | Some r \<Rightarrow>
          beforeFirst fence
            (dropWhile isWhiteSpace (if prefixCI (js ''json'') r then drop 4 r else r)))"

text \<open>\<open>parsed.filter((v): v is string => typeof v === "string")\<close>\<close>

fun stringsOf :: "json list \<Rightarrow> jsstring list" where
  "stringsOf [] = []"
| "stringsOf (JString x # vs) = x # stringsOf vs"
| "stringsOf (_ # vs) = stringsOf vs"

definition isJString :: "json \<Rightarrow> bool" where
  "isJString v = (case v of JString x \<Rightarrow> True | _ \<Rightarrow> False)"

text \<open>
  The body of the \<open>try\<close> block for one parsed value: the list to return, or \<open>None\<close>
  where neither \<open>if\<close> applies. \<open>parsed.messages\<close> is the value of the last member
  named \<open>messages\<close>.
\<close>

definition usable :: "json \<Rightarrow> jsstring list option" where
  "usable parsed =
     (case parsed of
        JArray vs \<Rightarrow> Some (stringsOf vs)
      | JObject kvs \<Rightarrow>
          (case map_of (rev kvs) (js ''messages'') of
             Some (JArray vs) \<Rightarrow> Some (stringsOf vs)
           | _ \<Rightarrow> None)
      | _ \<Rightarrow> None)"

fun tryAttempts :: "jsstring list \<Rightarrow> jsstring list option" where
  "tryAttempts [] = None"
| "tryAttempts (candidate # rest) =
     (if candidate = [] then tryAttempts rest
      else (case JSON_parse candidate of
              None \<Rightarrow> tryAttempts rest
            | Some parsed \<Rightarrow>
                (case usable parsed of
                   Some r \<Rightarrow> Some r
                 | None \<Rightarrow> tryAttempts rest)))"

definition parseStructuredResponse :: "jsstring \<Rightarrow> jsstring list option" where
  "parseStructuredResponse raw =
     (let attempts = [trim raw];
          attempts = (case fencedGroup raw of
                        Some g \<Rightarrow> if g \<noteq> [] then attempts @ [trim g] else attempts
                      | None \<Rightarrow> attempts)
      in tryAttempts attempts)"

text \<open>
  \<open>String.prototype.toLowerCase\<close> is the Unicode case mapping of the language, a
  table that is no part of this repository. Every function that reaches it takes it
  as the parameter \<open>lc\<close>, and the theorems hold for every such function.
  \<open>asciiLower\<close> agrees with it on ASCII text and serves where a theorem is
  evaluated at a concrete input.
\<close>

definition asciiLower :: "jsstring \<Rightarrow> jsstring" where
  "asciiLower s = map (\<lambda>c. if 0x41 \<le> c \<and> c \<le> 0x5A then c + 0x20 else c) s"

fun dedupeLoop :: "(jsstring \<Rightarrow> jsstring) \<Rightarrow> jsstring list \<Rightarrow> jsstring set \<Rightarrow> jsstring list \<Rightarrow> jsstring list" where
  "dedupeLoop lc [] seen unique = unique"
| "dedupeLoop lc (c # cs) seen unique =
     (let key = lc c
      in if key \<notin> seen then dedupeLoop lc cs (insert key seen) (unique @ [c])
         else dedupeLoop lc cs seen unique)"

definition dedupeCandidates :: "(jsstring \<Rightarrow> jsstring) \<Rightarrow> jsstring list \<Rightarrow> jsstring list" where
  "dedupeCandidates lc candidates = dedupeLoop lc candidates {} []"

text \<open>
  What the loop of \<open>dedupeCandidates\<close> appends to \<open>unique\<close>, written without the
  accumulator. It serves the proofs only.
\<close>

fun keepNew :: "(jsstring \<Rightarrow> jsstring) \<Rightarrow> jsstring set \<Rightarrow> jsstring list \<Rightarrow> jsstring list" where
  "keepNew lc seen [] = []"
| "keepNew lc seen (c # cs) =
     (if lc c \<in> seen then keepNew lc seen cs else c # keepNew lc (insert (lc c) seen) cs)"

text \<open>
  The value of the local variable \<open>candidates\<close> of \<open>parseResponse\<close> for a cleaned,
  non-empty text: the cleaned raw candidates, the empty ones filtered out.
\<close>

definition rawCandidates :: "jsstring \<Rightarrow> bool \<Rightarrow> jsstring list" where
  "rawCandidates cleaned hasBody =
     (case parseStructuredResponse cleaned of
        Some structured \<Rightarrow> filter (\<lambda>c. length c > 0) (map cleanCandidate structured)
      | None \<Rightarrow>
          if hasBody then filter (\<lambda>c. length c > 0) (map cleanCandidate (splitBlankRuns cleaned))
          else filter (\<lambda>c. length c > 0) (map cleanCandidate (splitNewline cleaned)))"

definition parseResponse :: "(jsstring \<Rightarrow> jsstring) \<Rightarrow> jsstring \<Rightarrow> bool \<Rightarrow> jsstring list" where
  "parseResponse lc raw hasBody =
     (if raw = [] \<or> trim raw = [] then []
      else let cleaned = trim (stripThinkBlocks raw)
           in if cleaned = [] then []
              else take 3 (dedupeCandidates lc (rawCandidates cleaned hasBody)))"

section \<open>The validity filter\<close>

text \<open>\<open>/\s[-*\u2022]\s+/.test(subject)\<close>\<close>

fun hasEmbeddedBullet :: "jsstring \<Rightarrow> bool" where
  "hasEmbeddedBullet (a # b # c # cs) =
     ((isWhiteSpace a \<and> isBulletChar b \<and> isWhiteSpace c) \<or> hasEmbeddedBullet (b # c # cs))"
| "hasEmbeddedBullet _ = False"

definition isValidCommitMessage :: "jsstring \<Rightarrow> bool \<Rightarrow> bool" where
  "isValidCommitMessage message hasBody =
     (if message = [] \<or> length (trim message) = 0 then False
      else if includesStr message fence then False
      else let lines = splitNewline message;
               subject = trim (hd lines)
           in if subject = [] then False
              else if \<not> hasBody \<and> length lines > 1 then False
              else if \<not> hasBody \<and> hasEmbeddedBullet subject then False
              else if hasBody \<and> filter (\<lambda>line. length (trim line) > 0) (tl lines) = [] then False
              else True)"

definition filterValidCommitMessages :: "jsstring list \<Rightarrow> bool \<Rightarrow> jsstring list" where
  "filterValidCommitMessages messages hasBody =
     filter (\<lambda>message. isValidCommitMessage message hasBody) messages"

section \<open>Numbers of the source language\<close>

text \<open>
  A number of the source language is an IEEE 754 binary64 value. The numbers of this
  program are finite, and a finite binary64 value is \<open>m * 2 ^ e\<close> for integers \<open>m\<close> and
  \<open>e\<close>: the pair \<open>(m, e)\<close>, with \<open>2 ^ 52 \<le> |m| < 2 ^ 53\<close>, or \<open>(0, 0)\<close>. Every
  operation gives the exact result rounded to the nearest such value, a tie going to
  the even \<open>m\<close>. The limits of the exponent (overflow to infinity, subnormal numbers)
  are not modelled; the numbers of this program, between 0.1 and 1.1, are far from
  them.
\<close>

type_synonym double = "int \<times> int"

definition pow2 :: "int \<Rightarrow> rat" where
  "pow2 e = (if 0 \<le> e then 2 ^ nat e else 1 / 2 ^ nat (- e))"

definition valueOf :: "double \<Rightarrow> rat" where
  "valueOf d = of_int (fst d) * pow2 (snd d)"

text \<open>\<open>floorLog2 n\<close> is the largest \<open>k\<close> with \<open>2 ^ k \<le> n\<close>, for \<open>n \<ge> 1\<close>.\<close>

function floorLog2 :: "int \<Rightarrow> int" where
  "floorLog2 n = (if n \<le> 1 then 0 else 1 + floorLog2 (n div 2))"
  by pat_completeness auto
termination
  by (relation "measure nat") auto

declare floorLog2.simps [simp del]

text \<open>The integer nearest to \<open>num / den\<close> (\<open>den > 0\<close>), a tie going to the even one.\<close>

definition roundHalfEven :: "int \<Rightarrow> int \<Rightarrow> int" where
  "roundHalfEven num den =
     (let q = num div den; r = num mod den
      in if 2 * r < den then q
         else if den < 2 * r then q + 1
         else if even q then q else q + 1)"

text \<open>The \<open>e\<close> with \<open>2 ^ e \<le> a / b < 2 ^ (e + 1)\<close>, for \<open>a > 0\<close> and \<open>b > 0\<close>.\<close>

definition binade :: "int \<Rightarrow> int \<Rightarrow> int" where
  "binade a b =
     (let d = floorLog2 a - floorLog2 b
      in if (if 0 \<le> d then b * 2 ^ nat d \<le> a else b \<le> a * 2 ^ nat (- d)) then d else d - 1)"

text \<open>The binary64 value nearest to the fraction \<open>a / b\<close> (\<open>b > 0\<close>).\<close>

definition roundRatio :: "int \<Rightarrow> int \<Rightarrow> double" where
  "roundRatio a b =
     (if a = 0 then (0, 0)
      else
        (let e = binade \<bar>a\<bar> b;
             n = (if e \<le> 52 then roundHalfEven (\<bar>a\<bar> * 2 ^ nat (52 - e)) b
                  else roundHalfEven \<bar>a\<bar> (b * 2 ^ nat (e - 52)))
         in if n = 2 ^ 53 then (sgn a * 2 ^ 52, e - 51) else (sgn a * n, e - 52)))"

definition ofDyadic :: "int \<Rightarrow> int \<Rightarrow> double" where
  "ofDyadic m e = (if 0 \<le> e then roundRatio (m * 2 ^ nat e) 1 else roundRatio m (2 ^ nat (- e)))"

text \<open>
  A decimal literal with the value \<open>a / b\<close> (\<open>0.2\<close> is \<open>decimal 2 10\<close>), the number of an
  integer loop variable, and the operators \<open>*\<close> and \<open>+\<close>.
\<close>

definition decimal :: "int \<Rightarrow> int \<Rightarrow> double" where
  "decimal a b = roundRatio a b"

definition ofNat :: "nat \<Rightarrow> double" where
  "ofNat n = roundRatio (int n) 1"

definition fmul :: "double \<Rightarrow> double \<Rightarrow> double" where
  "fmul x y = ofDyadic (fst x * fst y) (snd x + snd y)"

definition fadd :: "double \<Rightarrow> double \<Rightarrow> double" where
  "fadd x y =
     (let e = min (snd x) (snd y)
      in ofDyadic (fst x * 2 ^ nat (snd x - e) + fst y * 2 ^ nat (snd y - e)) e)"

section \<open>The model backend\<close>

text \<open>
  The body of a request to \<open>/api/generate\<close>. \<open>format\<close> is either absent or the
  constant \<open>COMMIT_MESSAGES_SCHEMA\<close>. The temperature and the repetition penalty are
  numbers of the source language.
\<close>

datatype format = COMMIT_MESSAGES_SCHEMA

record options =
  temperature :: double
  num_predict :: nat
  repeat_penalty :: double

record GenerateRequest =
  rq_model :: jsstring
  rq_prompt :: jsstring
  rq_system :: jsstring
  rq_format :: "format option"
  rq_stream :: bool
  rq_think :: bool
  rq_options :: options

text \<open>
  What \<open>fetch\<close> and the decoding of the reply can do in \<open>callOllama\<close>: \<open>fetch\<close>
  rejects, the status is not a success, \<open>res.json()\<close> rejects, or the reply carries
  the text \<open>data.response\<close>.
\<close>

datatype reply = Unreachable | HttpError | Undecodable | Response jsstring

text \<open>
  The backend gives the reply to the \<open>n\<close>-th request of an invocation, counted from 0
  in the order in which the requests are sent; the reply may depend on the request.
\<close>

type_synonym backend = "nat \<Rightarrow> GenerateRequest \<Rightarrow> reply"

text \<open>
  An invocation that does not return: \<open>process.exit(1)\<close> after one of the three error
  messages of the source, or an exception that leaves the function.
\<close>

datatype exit_message = CouldNotConnect | ReturnedHttpStatus | EmptyOrInvalidResponse

datatype failure = ProcessExit exit_message | Thrown

text \<open>
  The state that the effects act on is the list of the requests sent so far. Every
  effectful function takes it and returns it extended, next to its result.
\<close>

type_synonym 'a outcome = "(failure + 'a) \<times> GenerateRequest list"

definition callOllama :: "backend \<Rightarrow> GenerateRequest \<Rightarrow> GenerateRequest list \<Rightarrow> jsstring outcome" where
  "callOllama backend body sent =
     (case backend (length sent) body of
        Unreachable \<Rightarrow> (Inl (ProcessExit CouldNotConnect), sent @ [body])
      | HttpError \<Rightarrow> (Inl (ProcessExit ReturnedHttpStatus), sent @ [body])
      | Undecodable \<Rightarrow> (Inl Thrown, sent @ [body])
      | Response text \<Rightarrow> (Inr text, sent @ [body]))"

section \<open>Length repair\<close>

definition shortenPrompt :: jsstring where
  "shortenPrompt = js ''Shorten the following Git commit message to <= 72 characters without losing meaning. Return ONLY the shortened message, nothing else.\<newline>\<newline>''"

definition shortenSystem :: jsstring where
  "shortenSystem = js ''You shorten Git commit messages. Return only the shortened message. No commentary.''"

definition shortenBody :: "jsstring \<Rightarrow> jsstring \<Rightarrow> GenerateRequest" where
  "shortenBody message model =
     \<lparr> rq_model = model,
       rq_prompt = shortenPrompt @ message,
       rq_system = shortenSystem,
       rq_format = None,
       rq_stream = False,
       rq_think = False,
       rq_options = \<lparr> temperature = decimal 1 10, num_predict = 80, repeat_penalty = decimal 11 10 \<rparr> \<rparr>"

text \<open>\<open>message.slice(0, 69) + "..."\<close>\<close>

definition truncated :: "jsstring \<Rightarrow> jsstring" where
  "truncated message = take 69 message @ js ''...''"

text \<open>
  The \<open>try\<close> block catches an exception of \<open>callOllama\<close>. \<open>process.exit\<close> throws
  nothing: it ends the process, inside the \<open>try\<close> block as anywhere else.
\<close>

definition validateSubjectLength :: "backend \<Rightarrow> jsstring \<Rightarrow> jsstring \<Rightarrow> GenerateRequest list \<Rightarrow> jsstring outcome" where
  "validateSubjectLength backend message model sent =
     (if length message \<le> 72 then (Inr message, sent)
      else
        (case callOllama backend (shortenBody message model) sent of
           (Inl (ProcessExit m), sent') \<Rightarrow> (Inl (ProcessExit m), sent')
         | (Inl Thrown, sent') \<Rightarrow> (Inr (truncated message), sent')
         | (Inr raw, sent') \<Rightarrow>
             (let shortened = cleanCandidate raw
              in if shortened \<noteq> [] \<and> length shortened \<le> 72 then (Inr shortened, sent')
                 else (Inr (truncated message), sent'))))"

definition validateBodySubjectLength :: "backend \<Rightarrow> jsstring \<Rightarrow> jsstring \<Rightarrow> GenerateRequest list \<Rightarrow> jsstring outcome" where
  "validateBodySubjectLength backend message model sent =
     (let lines = splitNewline message;
          subject = hd lines
      in if subject = [] \<or> length subject \<le> 72 then (Inr message, sent)
         else
           (case validateSubjectLength backend subject model sent of
              (Inl f, sent') \<Rightarrow> (Inl f, sent')
            | (Inr shortened, sent') \<Rightarrow> (Inr (joinNewline (lines[0 := shortened])), sent')))"

text \<open>
  \<open>await Promise.all(candidates.map(validate))\<close>. Each call of \<open>validate\<close> runs up to
  its \<open>fetch\<close> before the next one starts, so the requests are sent in the order of
  the pool, all of them before a reply is looked at, and the log holds them all
  whatever the outcome. Where every call returns, the value is the list of the
  results in the order of the pool, whatever the order in which the replies arrive.
  Where a call ends the process, there is no value. Where several calls would end it,
  the process ends at the one whose reply arrives first; the model takes the replies
  to arrive in the order of the requests, one of the orders that can occur, so it
  reports the first failure in the order of the pool. The order bears on nothing but
  which of the two transport messages is the last output of the process.
\<close>

fun validateAll :: "(jsstring \<Rightarrow> GenerateRequest list \<Rightarrow> jsstring outcome) \<Rightarrow> jsstring list \<Rightarrow> GenerateRequest list \<Rightarrow> jsstring list outcome" where
  "validateAll validate [] sent = (Inr [], sent)"
| "validateAll validate (c # cs) sent =
     (case validate c sent of
        (r, sent') \<Rightarrow>
          (case validateAll validate cs sent' of
             (rs, sent'') \<Rightarrow>
               (case r of
                  Inl f \<Rightarrow> (Inl f, sent'')
                | Inr x \<Rightarrow>
                    (case rs of
                       Inl f \<Rightarrow> (Inl f, sent'')
                     | Inr xs \<Rightarrow> (Inr (x # xs), sent'')))))"

section \<open>The generation controller\<close>

definition MAX_ATTEMPTS :: nat where
  "MAX_ATTEMPTS = 3"

definition BASE_TEMPERATURE :: double where
  "BASE_TEMPERATURE = decimal 2 10"

definition TEMPERATURE_STEP :: double where
  "TEMPERATURE_STEP = decimal 2 10"

definition maxTokens :: "bool \<Rightarrow> nat" where
  "maxTokens hasBody = (if hasBody then 400 else 300)"

text \<open>The object \<open>body\<close> that the loop builds for the attempt with index \<open>attempt\<close>.\<close>

definition attemptBody :: "jsstring \<Rightarrow> jsstring \<Rightarrow> jsstring \<Rightarrow> bool \<Rightarrow> nat \<Rightarrow> GenerateRequest" where
  "attemptBody systemPrompt userPrompt model hasBody attempt =
     \<lparr> rq_model = model,
       rq_prompt = userPrompt,
       rq_system = systemPrompt,
       rq_format = Some COMMIT_MESSAGES_SCHEMA,
       rq_stream = False,
       rq_think = False,
       rq_options =
         \<lparr> temperature = fadd BASE_TEMPERATURE (fmul (ofNat attempt) TEMPERATURE_STEP),
           num_predict = maxTokens hasBody,
           repeat_penalty = decimal 11 10 \<rparr> \<rparr>"

text \<open>
  \<open>for (const c of parsed) { if (!candidates.includes(c)) { candidates.push(c); } }\<close>:
  \<open>includes\<close> compares the strings themselves.
\<close>

fun mergeParsed :: "jsstring list \<Rightarrow> jsstring list \<Rightarrow> jsstring list" where
  "mergeParsed candidates [] = candidates"
| "mergeParsed candidates (c # parsed) =
     (if c \<notin> set candidates then mergeParsed (candidates @ [c]) parsed
      else mergeParsed candidates parsed)"

text \<open>
  The \<open>for\<close> loop of \<open>generateCommitMessages\<close> from the state in which the loop
  variable is \<open>attempt\<close> and the pool is \<open>candidates\<close>.
\<close>

function attemptLoop :: "backend \<Rightarrow> (jsstring \<Rightarrow> jsstring) \<Rightarrow> jsstring \<Rightarrow> jsstring \<Rightarrow> jsstring \<Rightarrow> bool \<Rightarrow>
    nat \<Rightarrow> jsstring list \<Rightarrow> GenerateRequest list \<Rightarrow> jsstring list outcome" where
  "attemptLoop backend lc systemPrompt userPrompt model hasBody attempt candidates sent =
     (if attempt < MAX_ATTEMPTS \<and> length candidates < 3 then
        (case callOllama backend (attemptBody systemPrompt userPrompt model hasBody attempt) sent of
           (Inl f, sent') \<Rightarrow> (Inl f, sent')
         | (Inr raw, sent') \<Rightarrow>
             (let parsed = filterValidCommitMessages (parseResponse lc raw hasBody) hasBody
              in attemptLoop backend lc systemPrompt userPrompt model hasBody
                   (attempt + 1) (mergeParsed candidates parsed) sent'))
      else (Inr candidates, sent))"
  by pat_completeness auto
termination
  by (relation "measure (\<lambda>(backend, lc, systemPrompt, userPrompt, model, hasBody, attempt, candidates, sent).
        MAX_ATTEMPTS - attempt)") auto

declare attemptLoop.simps [simp del]

definition generateCommitMessages :: "backend \<Rightarrow> (jsstring \<Rightarrow> jsstring) \<Rightarrow> jsstring \<Rightarrow> jsstring \<Rightarrow> jsstring \<Rightarrow> bool \<Rightarrow>
    jsstring list outcome" where
  "generateCommitMessages backend lc systemPrompt userPrompt model hasBody =
     (case attemptLoop backend lc systemPrompt userPrompt model hasBody 0 [] [] of
        (Inl f, sent) \<Rightarrow> (Inl f, sent)
      | (Inr candidates, sent) \<Rightarrow>
          (let candidates = take 3 candidates
           in if length candidates = 0 then (Inl (ProcessExit EmptyOrInvalidResponse), sent)
              else if \<not> hasBody
                then validateAll (\<lambda>c. validateSubjectLength backend c model) candidates sent
                else validateAll (\<lambda>c. validateBodySubjectLength backend c model) candidates sent))"

section \<open>Properties of the candidate cleaner\<close>





lemma openTag_lt: "prefixCI openTag (c # cs) \<Longrightarrow> c = 0x3C"
  by (simp add: openTag_def js_def ciChar_def)

lemma closeTag_lt: "prefixCI closeTag (c # cs) \<Longrightarrow> c = 0x3C"
  by (simp add: closeTag_def js_def ciChar_def)











section \<open>Properties of structured-output extraction\<close>

lemma JSON_parse_Nil: "JSON_parse [] = None"
  by (simp add: JSON_parse_def)

lemma stringsOf_filter: "map JString (stringsOf vs) = filter isJString vs"
  by (induction vs rule: stringsOf.induct) (simp_all add: isJString_def)

lemma tryAttempts_first:
  assumes "JSON_parse a = Some parsed" and "usable parsed = Some r"
  shows "tryAttempts (a # rest) = Some r"
proof -
  from assms(1) have "a \<noteq> []"
    by (auto simp: JSON_parse_Nil)
  with assms show ?thesis by simp
qed

lemma parseStructuredResponse_first:
  assumes "JSON_parse (trim raw) = Some parsed" and "usable parsed = Some r"
  shows "parseStructuredResponse raw = Some r"
  using tryAttempts_first [OF assms]
  by (simp add: parseStructuredResponse_def Let_def split: option.splits del: tryAttempts.simps)

lemma dedupe_aab:
  assumes "lc a \<noteq> lc b"
  shows "dedupeCandidates lc [a, a, b] = [a, b]"
  using assms by (simp add: dedupeCandidates_def)

lemma messages_aab_structured:
  \<open>parseStructuredResponse (js ''{"messages":["a","a","b"]}'') = Some [js ''a'', js ''a'', js ''b'']\<close>
  by code_simp

lemma messages_aab_cleaned:
  \<open>trim (js ''{"messages":["a","a","b"]}'') = js ''{"messages":["a","a","b"]}''\<close>
  \<open>trim (stripThinkBlocks (js ''{"messages":["a","a","b"]}'')) = js ''{"messages":["a","a","b"]}''\<close>
  \<open>js ''{"messages":["a","a","b"]}'' \<noteq> []\<close>
  \<open>filter (\<lambda>c. c \<noteq> []) (map cleanCandidate [js ''a'', js ''a'', js ''b'']) = [js ''a'', js ''a'', js ''b'']\<close>
  by code_simp+

lemma messages_aab:
  assumes "lc (js ''a'') \<noteq> lc (js ''b'')"
  shows \<open>parseResponse lc (js ''{"messages":["a","a","b"]}'') hasBody = [js ''a'', js ''b'']\<close>
  by (simp add: parseResponse_def rawCandidates_def messages_aab_cleaned messages_aab_structured
      dedupe_aab [of lc, OF assms] del: filter.simps list.map)

lemma parseStructuredResponse_second:
  assumes "JSON_parse (trim raw) = Some parsed" and "usable parsed = None"
  shows "parseStructuredResponse raw =
    (case fencedGroup raw of
       None \<Rightarrow> None
     | Some g \<Rightarrow> if g \<noteq> [] then tryAttempts [trim g] else None)"
  using assms
  by (simp add: parseStructuredResponse_def Let_def split: option.splits)

lemma usable_no_messages:
  assumes "\<forall>ws. map_of (rev kvs) (js ''messages'') \<noteq> Some (JArray ws)"
  shows "usable (JObject kvs) = None"
  using assms by (simp add: usable_def split: option.splits json.splits)

text \<open>
  Claim C6 (as amended). The claim says that extraction succeeds on a JSON object
  containing a key whose value is an array of strings. The source asks for the key
  \<open>messages\<close> by name (\<open>"messages" in parsed\<close>); an array under another key does not
  make an object usable (see the counterexample below). What holds: extraction
  succeeds on a text whose trimmed content parses as a JSON array, or as a JSON object
  whose member \<open>messages\<close> is an array; the result is the list of the string
  elements of that array, in order, the other elements discarded. Where the trimmed
  content parses as an object that has no array under \<open>messages\<close>, whatever its other
  keys hold, the object is passed over: extraction then is what the first fenced block
  of the text gives, and it fails when the text has no fenced block. And
  \<open>{"messages":["a","a","b"]}\<close> normalizes to \<open>["a","b"]\<close> in either mode, for every
  lower-casing function that tells \<open>a\<close> from \<open>b\<close>.
\<close>

theorem parseStructuredResponse_usable_amended:
  \<open>(JSON_parse (trim raw) = Some (JArray vs) \<longrightarrow> parseStructuredResponse raw = Some (stringsOf vs))
   \<and> (JSON_parse (trim raw) = Some (JObject kvs) \<and> map_of (rev kvs) (js ''messages'') = Some (JArray vs)
        \<longrightarrow> parseStructuredResponse raw = Some (stringsOf vs))
   \<and> (JSON_parse (trim raw) = Some (JObject kvs)
        \<and> (\<forall>ws. map_of (rev kvs) (js ''messages'') \<noteq> Some (JArray ws))
        \<longrightarrow> parseStructuredResponse raw =
              (case fencedGroup raw of
                 None \<Rightarrow> None
               | Some g \<Rightarrow> if g \<noteq> [] then tryAttempts [trim g] else None))
   \<and> map JString (stringsOf vs) = filter isJString vs
   \<and> (lc (js ''a'') \<noteq> lc (js ''b'')
        \<longrightarrow> parseResponse lc (js ''{"messages":["a","a","b"]}'') hasBody = [js ''a'', js ''b''])\<close>
proof (intro conjI impI)
  assume "JSON_parse (trim raw) = Some (JArray vs)"
  then show "parseStructuredResponse raw = Some (stringsOf vs)"
    by (rule parseStructuredResponse_first) (simp add: usable_def)
next
  assume "JSON_parse (trim raw) = Some (JObject kvs) \<and> map_of (rev kvs) (js ''messages'') = Some (JArray vs)"
  then have p: "JSON_parse (trim raw) = Some (JObject kvs)"
    and m: "map_of (rev kvs) (js ''messages'') = Some (JArray vs)" by simp_all
  from p show "parseStructuredResponse raw = Some (stringsOf vs)"
    by (rule parseStructuredResponse_first) (simp add: usable_def m)
next
  assume "JSON_parse (trim raw) = Some (JObject kvs)
      \<and> (\<forall>ws. map_of (rev kvs) (js ''messages'') \<noteq> Some (JArray ws))"
  then have p: "JSON_parse (trim raw) = Some (JObject kvs)"
    and m: "\<forall>ws. map_of (rev kvs) (js ''messages'') \<noteq> Some (JArray ws)" by simp_all
  from p usable_no_messages [OF m]
  show "parseStructuredResponse raw =
      (case fencedGroup raw of
         None \<Rightarrow> None
       | Some g \<Rightarrow> if g \<noteq> [] then tryAttempts [trim g] else None)"
    by (rule parseStructuredResponse_second)
next
  show "map JString (stringsOf vs) = filter isJString vs"
    by (rule stringsOf_filter)
next
  assume "lc (js ''a'') \<noteq> lc (js ''b'')"
  then show \<open>parseResponse lc (js ''{"messages":["a","a","b"]}'') hasBody = [js ''a'', js ''b'']\<close>
    by (rule messages_aab)
qed

text \<open>
  Witness for C6 (as amended): an array with a number in it; an object whose member
  \<open>messages\<close> holds a \<open>null\<close>; an object with an array under \<open>items\<close> and no fenced
  block, on which extraction fails; an object with no \<open>messages\<close> and a fenced \<open>[]\<close>
  inside one of its strings, on which the fenced block gives the empty list; and the
  input of the claim under ASCII lower-casing.
\<close>

theorem parseStructuredResponse_usable_amended_witness:
  \<open>parseStructuredResponse (js '' ["a", 1, "b"] '') = Some [js ''a'', js ''b'']
   \<and> parseStructuredResponse (js ''{"messages":["a", null, "b"]}'') = Some [js ''a'', js ''b'']
   \<and> parseStructuredResponse (js ''{"items":["x"],"n":1}'') = None
   \<and> parseStructuredResponse (js ''{"items":["a","b"],"n":"```[]```"}'') = Some []
   \<and> parseResponse asciiLower (js ''{"messages":["a","a","b"]}'') False = [js ''a'', js ''b'']\<close>
proof -
  have a: \<open>JSON_parse (trim (js '' ["a", 1, "b"] '')) = Some (JArray [JString (js ''a''), JNumber (js ''1''), JString (js ''b'')])\<close>
    by code_simp
  have o: \<open>JSON_parse (trim (js ''{"messages":["a", null, "b"]}''))
       = Some (JObject [(js ''messages'', JArray [JString (js ''a''), JNull, JString (js ''b'')])])\<close>
    by code_simp
  have m: \<open>map_of (rev [(js ''messages'', JArray [JString (js ''a''), JNull, JString (js ''b'')])]) (js ''messages'')
       = Some (JArray [JString (js ''a''), JNull, JString (js ''b'')])\<close>
    by simp
  have l: "asciiLower (js ''a'') \<noteq> asciiLower (js ''b'')"
    by code_simp
  from a parseStructuredResponse_usable_amended [where raw = \<open>js '' ["a", 1, "b"] ''\<close>
      and vs = "[JString (js ''a''), JNumber (js ''1''), JString (js ''b'')]"]
  have 1: \<open>parseStructuredResponse (js '' ["a", 1, "b"] '') = Some [js ''a'', js ''b'']\<close>
    by simp
  from o m parseStructuredResponse_usable_amended [where raw = \<open>js ''{"messages":["a", null, "b"]}''\<close>
      and kvs = "[(js ''messages'', JArray [JString (js ''a''), JNull, JString (js ''b'')])]"
      and vs = "[JString (js ''a''), JNull, JString (js ''b'')]"]
  have 2: \<open>parseStructuredResponse (js ''{"messages":["a", null, "b"]}'') = Some [js ''a'', js ''b'']\<close>
    by simp
  from l parseStructuredResponse_usable_amended [where lc = asciiLower and hasBody = False]
  have 3: \<open>parseResponse asciiLower (js ''{"messages":["a","a","b"]}'') False = [js ''a'', js ''b'']\<close>
    by blast
  have i: \<open>JSON_parse (trim (js ''{"items":["x"],"n":1}''))
       = Some (JObject [(js ''items'', JArray [JString (js ''x'')]), (js ''n'', JNumber (js ''1''))])\<close>
    and im: \<open>map_of (rev [(js ''items'', JArray [JString (js ''x'')]), (js ''n'', JNumber (js ''1''))]) (js ''messages'') = None\<close>
    and fi: \<open>fencedGroup (js ''{"items":["x"],"n":1}'') = None\<close>
    by code_simp+
  from im have "\<forall>ws. map_of (rev [(js ''items'', JArray [JString (js ''x'')]), (js ''n'', JNumber (js ''1''))]) (js ''messages'')
      \<noteq> Some (JArray ws)"
    by simp
  with i fi parseStructuredResponse_usable_amended [where raw = \<open>js ''{"items":["x"],"n":1}''\<close>
      and kvs = "[(js ''items'', JArray [JString (js ''x'')]), (js ''n'', JNumber (js ''1''))]"]
  have 4: \<open>parseStructuredResponse (js ''{"items":["x"],"n":1}'') = None\<close>
    by simp
  have f: \<open>JSON_parse (trim (js ''{"items":["a","b"],"n":"```[]```"}''))
       = Some (JObject [(js ''items'', JArray [JString (js ''a''), JString (js ''b'')]), (js ''n'', JString (js ''```[]```''))])\<close>
    and fm: \<open>map_of (rev [(js ''items'', JArray [JString (js ''a''), JString (js ''b'')]), (js ''n'', JString (js ''```[]```''))])
        (js ''messages'') = None\<close>
    and ff: \<open>fencedGroup (js ''{"items":["a","b"],"n":"```[]```"}'') = Some (js ''[]'')\<close>
    and ft: \<open>js ''[]'' \<noteq> []\<close> \<open>tryAttempts [trim (js ''[]'')] = Some []\<close>
    by code_simp+
  from fm have "\<forall>ws. map_of (rev [(js ''items'', JArray [JString (js ''a''), JString (js ''b'')]), (js ''n'', JString (js ''```[]```''))])
        (js ''messages'') \<noteq> Some (JArray ws)"
    by simp
  with f ff ft parseStructuredResponse_usable_amended [where raw = \<open>js ''{"items":["a","b"],"n":"```[]```"}''\<close>
      and kvs = "[(js ''items'', JArray [JString (js ''a''), JString (js ''b'')]), (js ''n'', JString (js ''```[]```''))]"]
  have 5: \<open>parseStructuredResponse (js ''{"items":["a","b"],"n":"```[]```"}'') = Some []\<close>
    by simp
  from 1 2 3 4 5 show ?thesis by blast
qed

text \<open>
  Counterexample to C6 as stated: \<open>{"items":["a","b"]}\<close> parses as a JSON object with
  a key whose value is an array of strings, and extraction fails on it; on this text
  the normalizer falls back to splitting and returns the whole text as one candidate.
\<close>

theorem parseStructuredResponse_any_key_counterexample:
  \<open>JSON_parse (trim (js ''{"items":["a","b"]}''))
     = Some (JObject [(js ''items'', JArray [JString (js ''a''), JString (js ''b'')])])
   \<and> parseStructuredResponse (js ''{"items":["a","b"]}'') = None
   \<and> parseResponse asciiLower (js ''{"items":["a","b"]}'') False = [js ''{"items":["a","b"]}'']\<close>
  by code_simp

section \<open>Properties of the normalizer\<close>

lemma dedupeLoop_keepNew: "dedupeLoop lc cs seen unique = unique @ keepNew lc seen cs"
  by (induction cs arbitrary: seen unique) (simp_all add: Let_def)

lemma dedupeCandidates_keepNew: "dedupeCandidates lc cs = keepNew lc {} cs"
  by (simp add: dedupeCandidates_def dedupeLoop_keepNew)

lemma keepNew_fresh: "x \<in> set (keepNew lc seen cs) \<Longrightarrow> lc x \<notin> seen"
  by (induction cs arbitrary: seen) (auto split: if_splits)

lemma keepNew_distinct: "distinct (map lc (keepNew lc seen cs))"
  by (induction cs arbitrary: seen) (auto dest: keepNew_fresh)

lemma keepNew_subseq: "subseq (keepNew lc seen cs) cs"
  by (induction cs arbitrary: seen) auto

lemma keepNew_first:
  "x \<in> set (keepNew lc seen cs) \<Longrightarrow> find (\<lambda>y. lc y = lc x) cs = Some x"
proof (induction cs arbitrary: seen)
  case Nil
  then show ?case by simp
next
  case (Cons c cs)
  show ?case
  proof (cases "lc c \<in> seen")
    case True
    with Cons.prems have x: "x \<in> set (keepNew lc seen cs)" by simp
    from keepNew_fresh [OF x] True have "lc c \<noteq> lc x" by auto
    with Cons.IH [OF x] show ?thesis by simp
  next
    case False
    show ?thesis
    proof (cases "x = c")
      case True
      then show ?thesis by simp
    next
      case neq: False
      with False Cons.prems have x: "x \<in> set (keepNew lc (insert (lc c) seen) cs)" by simp
      from keepNew_fresh [OF x] have "lc c \<noteq> lc x" by auto
      with Cons.IH [OF x] show ?thesis by simp
    qed
  qed
qed

lemma keepNew_keys: "lc ` set (keepNew lc seen cs) = lc ` set cs - seen"
  by (induction cs arbitrary: seen) auto

lemma normalize_shape:
  assumes "r = take 3 (dedupeCandidates lc cs)"
  shows "length r \<le> 3" and "distinct (map lc r)" and "subseq r cs"
    and "\<forall>x\<in>set r. find (\<lambda>y. lc y = lc x) cs = Some x"
proof -
  show "length r \<le> 3" using assms by simp
  have "distinct (take 3 (map lc (keepNew lc {} cs)))"
    by (rule distinct_take) (rule keepNew_distinct)
  then show "distinct (map lc r)"
    using assms by (simp add: dedupeCandidates_keepNew take_map)
  have "subseq (take 3 (keepNew lc {} cs)) (keepNew lc {} cs)"
    by (metis append_take_drop_id prefix_def prefix_imp_subseq)
  with keepNew_subseq [of lc "{}" cs] show "subseq r cs"
    using assms by (auto simp: dedupeCandidates_keepNew intro: subseq_order.trans)
  show "\<forall>x\<in>set r. find (\<lambda>y. lc y = lc x) cs = Some x"
    using assms by (auto simp: dedupeCandidates_keepNew dest!: in_set_takeD keepNew_first)
qed


lemma prefixCI_length: "prefixCI p s \<Longrightarrow> length p \<le> length s"
  by (induction p s rule: prefixCI.induct) simp_all

lemma prefixCI_append: "prefixCI p s \<Longrightarrow> prefixCI p (s @ t)"
  by (induction p s rule: prefixCI.induct) simp_all

lemma prefixCI_appendD: "prefixCI p (s @ t) \<Longrightarrow> length p \<le> length s \<Longrightarrow> prefixCI p s"
  by (induction p s rule: prefixCI.induct) simp_all

lemma closeTag_length: "length closeTag = 8"
  by (simp add: closeTag_def js_def)

lemma openTag_length: "length openTag = 7"
  by (simp add: openTag_def js_def)

lemma isWhiteSpace_not_lt: "isWhiteSpace c \<Longrightarrow> c \<noteq> 0x3C"
  by (auto simp: isWhiteSpace_def)

lemma trim_whitespace:
  assumes "\<forall>c\<in>set s. isWhiteSpace c"
  shows "trim s = []"
proof -
  from assms have "dropWhile isWhiteSpace s = []" by simp
  then show ?thesis by (simp only: trim_def rev.simps dropWhile.simps)
qed

lemma stripThinkBlocks_fixed: "0x3C \<notin> set s \<Longrightarrow> stripThinkBlocks s = s"
  by (induction s) (auto dest: openTag_lt)

lemma stripThinkBlocks_whitespace:
  "\<forall>c\<in>set ws. isWhiteSpace c \<Longrightarrow> stripThinkBlocks (ws @ s) = ws @ stripThinkBlocks s"
  by (induction ws) (auto dest: openTag_lt isWhiteSpace_not_lt)

lemma findClose_block:
  assumes "length cls = 8" and "prefixCI closeTag cls"
    and "\<forall>i<length body. \<not> prefixCI closeTag (drop i (body @ cls))"
  shows "findClose (body @ cls @ rest) = Some rest"
  using assms(3)
proof (induction body)
  case Nil
  from assms(1) obtain c cs where cls: "cls = c # cs" and cs: "length cs = 7"
    by (cases cls) auto
  from assms(2) have "prefixCI closeTag (cls @ rest)"
    by (rule prefixCI_append)
  with cls cs show ?case by simp
next
  case (Cons b bs)
  from Cons.prems have "\<not> prefixCI closeTag (drop 0 ((b # bs) @ cls))"
    by blast
  then have "\<not> prefixCI closeTag ((b # bs) @ cls)" by simp
  moreover have "length closeTag \<le> length ((b # bs) @ cls)"
    using assms(1) by (simp add: closeTag_length)
  ultimately have n: "\<not> prefixCI closeTag (((b # bs) @ cls) @ rest)"
    by (blast dest: prefixCI_appendD)
  have "\<forall>i<length bs. \<not> prefixCI closeTag (drop i (bs @ cls))"
  proof (intro allI impI)
    fix i assume "i < length bs"
    then have "Suc i < length (b # bs)" by simp
    with Cons.prems have "\<not> prefixCI closeTag (drop (Suc i) ((b # bs) @ cls))"
      by blast
    then show "\<not> prefixCI closeTag (drop i (bs @ cls))" by simp
  qed
  from Cons.IH [OF this] n show ?case by simp
qed

lemma no_lt_no_close:
  assumes "0x3C \<notin> set body"
  shows "\<forall>i<length body. \<not> prefixCI closeTag (drop i (body @ cls))"
proof (intro allI impI notI)
  fix i assume i: "i < length body" and p: "prefixCI closeTag (drop i (body @ cls))"
  from i have "drop i (body @ cls) = body ! i # drop (Suc i) (body @ cls)"
    by (simp add: Cons_nth_drop_Suc nth_append)
  with p have "body ! i = 0x3C"
    by (auto dest: closeTag_lt)
  with i assms show False
    by (metis nth_mem)
qed

lemma stripThinkBlocks_block:
  assumes "length opn = 7" and "prefixCI openTag opn"
    and "length cls = 8" and "prefixCI closeTag cls"
    and "\<forall>i<length body. \<not> prefixCI closeTag (drop i (body @ cls))"
  shows "stripThinkBlocks (opn @ body @ cls @ rest) = stripThinkBlocks rest"
proof -
  from assms(1) obtain c cs where opn: "opn = c # cs" and cs: "length cs = 6"
    by (cases opn) auto
  from assms(2) have "prefixCI openTag (opn @ body @ cls @ rest)"
    by (rule prefixCI_append)
  moreover have "findClose (drop 6 (cs @ body @ cls @ rest)) = Some rest"
    using findClose_block [OF assms(3,4,5)] cs by simp
  ultimately show ?thesis using opn by simp
qed

lemma parseResponse_whitespace:
  assumes "\<forall>c\<in>set raw. isWhiteSpace c"
  shows "parseResponse lc raw hasBody = []"
  using trim_whitespace [OF assms] by (simp add: parseResponse_def)

lemma parseResponse_block:
  assumes "\<forall>c\<in>set ws1. isWhiteSpace c" and "\<forall>c\<in>set ws2. isWhiteSpace c"
    and "length opn = 7" and "prefixCI openTag opn"
    and "length cls = 8" and "prefixCI closeTag cls"
    and "\<forall>i<length body. \<not> prefixCI closeTag (drop i (body @ cls))"
  shows "parseResponse lc (ws1 @ opn @ body @ cls @ ws2) hasBody = []"
proof -
  from assms(2) have "0x3C \<notin> set ws2"
    by (auto dest: isWhiteSpace_not_lt)
  then have "stripThinkBlocks ws2 = ws2"
    by (rule stripThinkBlocks_fixed)
  with stripThinkBlocks_whitespace [OF assms(1)] stripThinkBlocks_block [OF assms(3-7)]
  have "stripThinkBlocks (ws1 @ opn @ body @ cls @ ws2) = ws1 @ ws2"
    by simp
  moreover from assms(1,2) have "\<forall>c\<in>set (ws1 @ ws2). isWhiteSpace c"
    by auto
  then have "trim (ws1 @ ws2) = []"
    by (rule trim_whitespace)
  ultimately show ?thesis
    by (simp add: parseResponse_def Let_def)
qed

text \<open>
  Claim C7. For every raw text, either mode and every lower-casing function, the
  normalizer returns at most 3 candidates whose lower-cased forms are pairwise
  distinct. The result is a subsequence of the cleaned raw candidates (their order is
  kept), and each member is the first raw candidate with its lower-cased form (the
  first-seen casing is kept). A raw text that is empty or only white space, and a raw
  text that is only a reasoning block (white space, an opening tag, a body in which no
  closing tag starts, a closing tag, white space; tags in any casing), normalizes to
  the empty list.
\<close>

theorem parseResponse_normalizes:
  "length (parseResponse lc raw hasBody) \<le> 3
   \<and> distinct (map lc (parseResponse lc raw hasBody))
   \<and> subseq (parseResponse lc raw hasBody) (rawCandidates (trim (stripThinkBlocks raw)) hasBody)
   \<and> (\<forall>x\<in>set (parseResponse lc raw hasBody).
         find (\<lambda>y. lc y = lc x) (rawCandidates (trim (stripThinkBlocks raw)) hasBody) = Some x)
   \<and> ((\<forall>c\<in>set raw. isWhiteSpace c) \<longrightarrow> parseResponse lc raw hasBody = [])
   \<and> ((\<forall>c\<in>set ws1. isWhiteSpace c) \<and> (\<forall>c\<in>set ws2. isWhiteSpace c)
        \<and> length opn = 7 \<and> prefixCI openTag opn \<and> length cls = 8 \<and> prefixCI closeTag cls
        \<and> (\<forall>i<length body. \<not> prefixCI closeTag (drop i (body @ cls)))
        \<longrightarrow> parseResponse lc (ws1 @ opn @ body @ cls @ ws2) hasBody = [])"
proof -
  let ?cs = "rawCandidates (trim (stripThinkBlocks raw)) hasBody"
  let ?r = "parseResponse lc raw hasBody"
  have shape: "length ?r \<le> 3 \<and> distinct (map lc ?r) \<and> subseq ?r ?cs
      \<and> (\<forall>x\<in>set ?r. find (\<lambda>y. lc y = lc x) ?cs = Some x)"
  proof (cases "?r = []")
    case True
    then show ?thesis by simp
  next
    case False
    then have "?r = take 3 (dedupeCandidates lc ?cs)"
      by (simp add: parseResponse_def Let_def split: if_splits)
    from normalize_shape [OF this] show ?thesis by blast
  qed
  with parseResponse_whitespace [of raw lc hasBody]
    parseResponse_block [of ws1 ws2 opn cls body lc hasBody]
  show ?thesis by blast
qed


text \<open>
  Witness for C7: four lines of which three differ in casing only; a text of blanks;
  a reasoning block with a closing tag in capitals, in subject+body mode.
\<close>

theorem parseResponse_normalizes_witness:
  "parseResponse asciiLower (js ''Add feature\<newline>add feature\<newline>ADD FEATURE\<newline>Fix bug'') False
     = [js ''Add feature'', js ''Fix bug'']
   \<and> rawCandidates (trim (stripThinkBlocks (js ''Add feature\<newline>add feature\<newline>ADD FEATURE\<newline>Fix bug''))) False
     = [js ''Add feature'', js ''add feature'', js ''ADD FEATURE'', js ''Fix bug'']
   \<and> find (\<lambda>y. asciiLower y = asciiLower (js ''Add feature''))
         (rawCandidates (trim (stripThinkBlocks (js ''Add feature\<newline>add feature\<newline>ADD FEATURE\<newline>Fix bug''))) False)
     = Some (js ''Add feature'')
   \<and> parseResponse asciiLower (js ''   '') False = []
   \<and> parseResponse asciiLower (js '' <think>\<newline>Thinking about this...\<newline></THINK>\<newline>'') True = []"
proof -
  let ?raw = "js ''Add feature\<newline>add feature\<newline>ADD FEATURE\<newline>Fix bug''"
  have r: "parseResponse asciiLower ?raw False = [js ''Add feature'', js ''Fix bug'']"
    by code_simp
  have c: "rawCandidates (trim (stripThinkBlocks ?raw)) False
      = [js ''Add feature'', js ''add feature'', js ''ADD FEATURE'', js ''Fix bug'']"
    by code_simp
  from parseResponse_normalizes [of asciiLower ?raw False]
  have "\<forall>x\<in>set (parseResponse asciiLower ?raw False).
      find (\<lambda>y. asciiLower y = asciiLower x) (rawCandidates (trim (stripThinkBlocks ?raw)) False) = Some x"
    by blast
  with r have f: "find (\<lambda>y. asciiLower y = asciiLower (js ''Add feature''))
      (rawCandidates (trim (stripThinkBlocks ?raw)) False) = Some (js ''Add feature'')"
    by simp
  have "\<forall>c\<in>set (js ''   ''). isWhiteSpace c"
    by code_simp
  with parseResponse_normalizes [of asciiLower "js ''   ''" False]
  have w: "parseResponse asciiLower (js ''   '') False = []"
    by blast
  have h: "\<forall>c\<in>set (js '' ''). isWhiteSpace c" "\<forall>c\<in>set (js ''\<newline>''). isWhiteSpace c"
    "length (js ''<think>'') = 7" "prefixCI openTag (js ''<think>'')"
    "length (js ''</THINK>'') = 8" "prefixCI closeTag (js ''</THINK>'')"
    "0x3C \<notin> set (js ''\<newline>Thinking about this...\<newline>'')"
    by code_simp+
  from h(7) have "\<forall>i<length (js ''\<newline>Thinking about this...\<newline>'').
      \<not> prefixCI closeTag (drop i (js ''\<newline>Thinking about this...\<newline>'' @ js ''</THINK>''))"
    by (rule no_lt_no_close)
  with h parseResponse_normalizes [where lc = asciiLower and hasBody = True
      and ?ws1.0 = "js '' ''" and ?ws2.0 = "js ''\<newline>''" and opn = "js ''<think>''"
      and cls = "js ''</THINK>''" and body = "js ''\<newline>Thinking about this...\<newline>''"]
  have "parseResponse asciiLower
      (js '' '' @ js ''<think>'' @ js ''\<newline>Thinking about this...\<newline>'' @ js ''</THINK>'' @ js ''\<newline>'') True = []"
    by blast
  then have b: "parseResponse asciiLower (js '' <think>\<newline>Thinking about this...\<newline></THINK>\<newline>'') True = []"
    by (simp add: js_def)
  from r c f w b show ?thesis by blast
qed

section \<open>Properties of the retry loop\<close>

lemma callOllama_sent: "snd (callOllama backend body sent) = sent @ [body]"
  by (simp add: callOllama_def split: reply.splits)

lemma callOllama_Inr:
  "callOllama backend body sent = (Inr raw, sent') \<longleftrightarrow>
     backend (length sent) body = Response raw \<and> sent' = sent @ [body]"
  by (auto simp: callOllama_def split: reply.splits)

lemma attemptLoop_full:
  "3 \<le> length candidates \<Longrightarrow>
   attemptLoop backend lc systemPrompt userPrompt model hasBody attempt candidates sent = (Inr candidates, sent)"
  by (simp add: attemptLoop.simps)

lemma attemptLoop_sent:
  "attemptLoop backend lc systemPrompt userPrompt model hasBody attempt candidates sent = (r, sent') \<Longrightarrow>
   \<exists>n. attempt + n \<le> max attempt MAX_ATTEMPTS
     \<and> sent' = sent @ map (attemptBody systemPrompt userPrompt model hasBody) [attempt..<attempt + n]
     \<and> (r = Inr [] \<longrightarrow> MAX_ATTEMPTS \<le> attempt + n)"
proof (induction "MAX_ATTEMPTS - attempt" arbitrary: attempt candidates sent)
  case 0
  then have "attemptLoop backend lc systemPrompt userPrompt model hasBody attempt candidates sent = (Inr candidates, sent)"
    by (simp add: attemptLoop.simps)
  with 0 have "r = Inr candidates" "sent' = sent" and "MAX_ATTEMPTS \<le> attempt" by simp_all
  then show ?case by (intro exI [of _ 0]) simp
next
  case (Suc d)
  let ?body = "attemptBody systemPrompt userPrompt model hasBody attempt"
  show ?case
  proof (cases "length candidates < 3")
    case False
    with Suc.prems have "r = Inr candidates" "sent' = sent"
      by (simp_all add: attemptLoop.simps)
    with False show ?thesis by (intro exI [of _ 0]) auto
  next
    case True
    from Suc.hyps(2) have a: "attempt < MAX_ATTEMPTS" by simp
    obtain x where c: "callOllama backend ?body sent = (x, sent @ [?body])"
      using callOllama_sent [of backend ?body sent] by (metis prod.collapse)
    show ?thesis
    proof (cases x)
      case (Inl f)
      with True a c Suc.prems have "r = Inl f" "sent' = sent @ [?body]"
        by (simp_all add: attemptLoop.simps)
      with a show ?thesis by (intro exI [of _ 1]) (simp add: max_def)
    next
      case (Inr raw)
      let ?next = "mergeParsed candidates (filterValidCommitMessages (parseResponse lc raw hasBody) hasBody)"
      from Inr True a c Suc.prems
      have "attemptLoop backend lc systemPrompt userPrompt model hasBody (attempt + 1) ?next (sent @ [?body]) = (r, sent')"
        by (simp add: attemptLoop.simps [of _ _ _ _ _ _ attempt])
      moreover from Suc.hyps(2) have "d = MAX_ATTEMPTS - (attempt + 1)" by simp
      ultimately obtain n where n: "attempt + 1 + n \<le> max (attempt + 1) MAX_ATTEMPTS"
        and s: "sent' = (sent @ [?body]) @ map (attemptBody systemPrompt userPrompt model hasBody) [attempt + 1..<attempt + 1 + n]"
        and e: "r = Inr [] \<longrightarrow> MAX_ATTEMPTS \<le> attempt + 1 + n"
        using Suc.hyps(1) by blast
      have "[attempt..<attempt + (n + 1)] = attempt # [attempt + 1..<attempt + 1 + n]"
        by (simp add: upt_conv_Cons)
      with s have "sent' = sent @ map (attemptBody systemPrompt userPrompt model hasBody) [attempt..<attempt + (n + 1)]"
        by simp
      moreover from n a have "attempt + (n + 1) \<le> max attempt MAX_ATTEMPTS"
        by (simp add: max_def)
      moreover from e have "r = Inr [] \<longrightarrow> MAX_ATTEMPTS \<le> attempt + (n + 1)"
        by simp
      ultimately show ?thesis by blast
    qed
  qed
qed


lemma validateSubjectLength_sent:
  assumes "validateSubjectLength backend message model sent = (r, sent')"
  shows "\<exists>extra. sent' = sent @ extra \<and> (\<forall>q\<in>set extra. rq_format q = None)"
proof (cases "length message \<le> 72")
  case True
  with assms show ?thesis by (simp add: validateSubjectLength_def)
next
  case False
  with assms have "sent' = snd (callOllama backend (shortenBody message model) sent)"
    by (auto simp: validateSubjectLength_def Let_def
        split: prod.splits sum.splits failure.splits if_splits)
  then have "sent' = sent @ [shortenBody message model]"
    by (simp add: callOllama_sent)
  then show ?thesis by (simp add: shortenBody_def)
qed

lemma validateBodySubjectLength_sent:
  assumes "validateBodySubjectLength backend message model sent = (r, sent')"
  shows "\<exists>extra. sent' = sent @ extra \<and> (\<forall>q\<in>set extra. rq_format q = None)"
proof (cases "hd (splitNewline message) = [] \<or> length (hd (splitNewline message)) \<le> 72")
  case True
  with assms show ?thesis by (auto simp: validateBodySubjectLength_def Let_def)
next
  case False
  with assms obtain r' where
    "validateSubjectLength backend (hd (splitNewline message)) model sent = (r', sent')"
    by (auto simp: validateBodySubjectLength_def Let_def split: prod.splits sum.splits)
  then show ?thesis by (rule validateSubjectLength_sent)
qed

lemma validateAll_sent:
  assumes v: "\<And>c sent r sent'. validate c sent = (r, sent') \<Longrightarrow>
      \<exists>extra. sent' = sent @ extra \<and> (\<forall>q\<in>set extra. rq_format q = None)"
  shows "validateAll validate cs sent = (rs, sent') \<Longrightarrow>
      \<exists>extra. sent' = sent @ extra \<and> (\<forall>q\<in>set extra. rq_format q = None)"
proof (induction cs arbitrary: sent rs sent')
  case Nil
  then show ?case by simp
next
  case (Cons c cs)
  obtain r s1 where 1: "validate c sent = (r, s1)" by (cases "validate c sent")
  obtain rs' s2 where 2: "validateAll validate cs s1 = (rs', s2)" by (cases "validateAll validate cs s1")
  from Cons.prems 1 2 have "sent' = s2"
    by (auto split: sum.splits)
  moreover from v [OF 1] obtain e1 where "s1 = sent @ e1" "\<forall>q\<in>set e1. rq_format q = None" by blast
  moreover from Cons.IH [OF 2] obtain e2 where "s2 = s1 @ e2" "\<forall>q\<in>set e2. rq_format q = None" by blast
  ultimately have "sent' = sent @ (e1 @ e2) \<and> (\<forall>q\<in>set (e1 @ e2). rq_format q = None)"
    by auto
  then show ?case by blast
qed

lemma generateCommitMessages_primary:
  "filter (\<lambda>q. rq_format q \<noteq> None) (snd (generateCommitMessages backend lc systemPrompt userPrompt model hasBody))
     = snd (attemptLoop backend lc systemPrompt userPrompt model hasBody 0 [] [])"
proof -
  obtain r sent where l: "attemptLoop backend lc systemPrompt userPrompt model hasBody 0 [] [] = (r, sent)"
    by (cases "attemptLoop backend lc systemPrompt userPrompt model hasBody 0 [] []")
  from attemptLoop_sent [OF l] obtain n where
    "sent = map (attemptBody systemPrompt userPrompt model hasBody) [0..<n]" by auto
  then have p: "filter (\<lambda>q. rq_format q \<noteq> None) sent = sent"
    by (simp add: attemptBody_def filter_map comp_def)
  obtain r' sent' where g: "generateCommitMessages backend lc systemPrompt userPrompt model hasBody = (r', sent')"
    by (cases "generateCommitMessages backend lc systemPrompt userPrompt model hasBody")
  have "\<exists>extra. sent' = sent @ extra \<and> (\<forall>q\<in>set extra. rq_format q = None)"
  proof (cases r)
    case (Inl f)
    with l g show ?thesis by (simp add: generateCommitMessages_def)
  next
    case (Inr candidates)
    show ?thesis
    proof (cases "take 3 candidates = []")
      case True
      with Inr l g show ?thesis by (simp add: generateCommitMessages_def Let_def del: take_eq_Nil)
    next
      case False
      show ?thesis
      proof (cases hasBody)
        case True
        with False Inr l g have "validateAll (\<lambda>c. validateBodySubjectLength backend c model) (take 3 candidates) sent = (r', sent')"
          by (simp add: generateCommitMessages_def Let_def del: take_eq_Nil)
        then show ?thesis
          by (rule validateAll_sent [rotated]) (rule validateBodySubjectLength_sent)
      next
        case nb: False
        with False Inr l g have "validateAll (\<lambda>c. validateSubjectLength backend c model) (take 3 candidates) sent = (r', sent')"
          by (simp add: generateCommitMessages_def Let_def del: take_eq_Nil)
        then show ?thesis
          by (rule validateAll_sent [rotated]) (rule validateSubjectLength_sent)
      qed
    qed
  qed
  then obtain extra where "sent' = sent @ extra" "\<forall>q\<in>set extra. rq_format q = None" by blast
  with p have "filter (\<lambda>q. rq_format q \<noteq> None) sent' = sent" by simp
  with l g show ?thesis by simp
qed

lemma temperature_values:
  "fadd (decimal 2 10) (fmul (ofNat 0) (decimal 2 10)) = decimal 2 10"
  "fadd (decimal 2 10) (fmul (ofNat 1) (decimal 2 10)) = decimal 4 10"
  "fadd (decimal 2 10) (fmul (ofNat 2) (decimal 2 10)) = (5404319552844596, - 53)"
  by code_simp+

lemma decimal_values:
  "decimal 6000000000000001 10000000000000000 = (5404319552844596, - 53)"
  "decimal 6 10 = (5404319552844595, - 53)"
  "decimal 4 10 = (7205759403792794, - 54)"
  by code_simp+

text \<open>
  The numbers of the three literals lie within half a unit in the last place of the
  decimal values (\<open>2 ^ - 56\<close> for 0.2, \<open>2 ^ - 55\<close> for 0.4, \<open>2 ^ - 54\<close> for 0.6); the
  sum computed at attempt 2 does not.
\<close>

lemma decimal_nearest:
  "\<bar>valueOf (decimal 2 10) - 2 / 10\<bar> \<le> 1 / 2 ^ 56"
  "\<bar>valueOf (decimal 4 10) - 4 / 10\<bar> \<le> 1 / 2 ^ 55"
  "\<bar>valueOf (decimal 6 10) - 6 / 10\<bar> \<le> 1 / 2 ^ 54"
  "1 / 2 ^ 54 < \<bar>valueOf (5404319552844596, - 53) - 6 / 10\<bar>"
proof -
  have "decimal 2 10 = (7205759403792794, - 55)"
    by code_simp
  then show "\<bar>valueOf (decimal 2 10) - 2 / 10\<bar> \<le> 1 / 2 ^ 56"
    by (simp add: valueOf_def pow2_def)
  show "\<bar>valueOf (decimal 4 10) - 4 / 10\<bar> \<le> 1 / 2 ^ 55"
    by (simp add: decimal_values valueOf_def pow2_def)
  show "\<bar>valueOf (decimal 6 10) - 6 / 10\<bar> \<le> 1 / 2 ^ 54"
    by (simp add: decimal_values valueOf_def pow2_def)
  show "1 / 2 ^ 54 < \<bar>valueOf (5404319552844596, - 53) - 6 / 10\<bar>"
    by (simp add: valueOf_def pow2_def)
qed

lemma attemptBody_temperature:
  "temperature (rq_options (attemptBody systemPrompt userPrompt model hasBody k))
     = fadd (decimal 2 10) (fmul (ofNat k) (decimal 2 10))"
  by (simp add: attemptBody_def BASE_TEMPERATURE_def TEMPERATURE_STEP_def)

text \<open>
  Claim C8 (as amended). The claim gives the temperature of attempt \<open>k\<close> as
  \<open>0.2 + 0.2 * k\<close>, that is 0.2, 0.4 and 0.6. The source evaluates
  \<open>BASE_TEMPERATURE + attempt * TEMPERATURE_STEP\<close> in binary64 arithmetic, and at
  attempt 2 the result is not the number that \<open>0.6\<close> denotes (see the counterexample
  below). What holds: the retry loop, started as the controller starts it, sends at
  most 3 requests, and the request with index \<open>k\<close> is the body built for attempt \<open>k\<close>;
  the requests of an invocation that carry the output schema (the primary requests, as
  opposed to length-repair requests) are exactly those of the loop. The body for
  attempt \<open>k\<close> has as temperature the binary64 value of \<open>0.2 + k * 0.2\<close>: the number
  \<open>0.2\<close> at attempt 0, the number \<open>0.4\<close> at attempt 1 and the number
  \<open>0.6000000000000001\<close> at attempt 2, which is \<open>5404319552844596 * 2 ^ - 53\<close>, one unit
  in the last place above the number \<open>0.6\<close>. Its token budget is 300 in single-line
  mode and 400 in subject+body mode, and its repetition penalty is the number \<open>1.1\<close>.
  From a state in which the pool holds 3 or more members the loop sends nothing and
  returns the pool.
\<close>

theorem attemptLoop_schedule:
  "length (snd (attemptLoop backend lc systemPrompt userPrompt model hasBody 0 [] [])) \<le> 3
   \<and> (\<forall>k<length (snd (attemptLoop backend lc systemPrompt userPrompt model hasBody 0 [] [])).
        snd (attemptLoop backend lc systemPrompt userPrompt model hasBody 0 [] []) ! k
          = attemptBody systemPrompt userPrompt model hasBody k)
   \<and> filter (\<lambda>q. rq_format q \<noteq> None)
        (snd (generateCommitMessages backend lc systemPrompt userPrompt model hasBody))
       = snd (attemptLoop backend lc systemPrompt userPrompt model hasBody 0 [] [])
   \<and> temperature (rq_options (attemptBody systemPrompt userPrompt model hasBody k))
       = fadd (decimal 2 10) (fmul (ofNat k) (decimal 2 10))
   \<and> temperature (rq_options (attemptBody systemPrompt userPrompt model hasBody 0)) = decimal 2 10
   \<and> temperature (rq_options (attemptBody systemPrompt userPrompt model hasBody 1)) = decimal 4 10
   \<and> temperature (rq_options (attemptBody systemPrompt userPrompt model hasBody 2))
       = decimal 6000000000000001 10000000000000000
   \<and> temperature (rq_options (attemptBody systemPrompt userPrompt model hasBody 2))
       = (5404319552844596, - 53)
   \<and> decimal 6 10 = (5404319552844595, - 53)
   \<and> num_predict (rq_options (attemptBody systemPrompt userPrompt model hasBody k)) = (if hasBody then 400 else 300)
   \<and> repeat_penalty (rq_options (attemptBody systemPrompt userPrompt model hasBody k)) = decimal 11 10
   \<and> (3 \<le> length candidates \<longrightarrow>
        attemptLoop backend lc systemPrompt userPrompt model hasBody attempt candidates sent
          = (Inr candidates, sent))"
proof -
  obtain r s where l: "attemptLoop backend lc systemPrompt userPrompt model hasBody 0 [] [] = (r, s)"
    by (cases "attemptLoop backend lc systemPrompt userPrompt model hasBody 0 [] []")
  from attemptLoop_sent [OF l] obtain n where n: "n \<le> 3"
    and s: "s = map (attemptBody systemPrompt userPrompt model hasBody) [0..<n]"
    by (auto simp: MAX_ATTEMPTS_def)
  from n s have "length s \<le> 3" and "\<forall>k<length s. s ! k = attemptBody systemPrompt userPrompt model hasBody k"
    by simp_all
  with l generateCommitMessages_primary [of backend lc systemPrompt userPrompt model hasBody]
  have loop: "length (snd (attemptLoop backend lc systemPrompt userPrompt model hasBody 0 [] [])) \<le> 3
      \<and> (\<forall>k<length (snd (attemptLoop backend lc systemPrompt userPrompt model hasBody 0 [] [])).
           snd (attemptLoop backend lc systemPrompt userPrompt model hasBody 0 [] []) ! k
             = attemptBody systemPrompt userPrompt model hasBody k)
      \<and> filter (\<lambda>q. rq_format q \<noteq> None)
           (snd (generateCommitMessages backend lc systemPrompt userPrompt model hasBody))
          = snd (attemptLoop backend lc systemPrompt userPrompt model hasBody 0 [] [])"
    by simp
  then have a: "length (snd (attemptLoop backend lc systemPrompt userPrompt model hasBody 0 [] [])) \<le> 3"
    and b: "\<forall>k<length (snd (attemptLoop backend lc systemPrompt userPrompt model hasBody 0 [] [])).
           snd (attemptLoop backend lc systemPrompt userPrompt model hasBody 0 [] []) ! k
             = attemptBody systemPrompt userPrompt model hasBody k"
    and c: "filter (\<lambda>q. rq_format q \<noteq> None)
           (snd (generateCommitMessages backend lc systemPrompt userPrompt model hasBody))
          = snd (attemptLoop backend lc systemPrompt userPrompt model hasBody 0 [] [])"
    by blast+
  have tk: "temperature (rq_options (attemptBody systemPrompt userPrompt model hasBody k))
       = fadd (decimal 2 10) (fmul (ofNat k) (decimal 2 10))"
    by (rule attemptBody_temperature)
  have t0: "temperature (rq_options (attemptBody systemPrompt userPrompt model hasBody 0)) = decimal 2 10"
    by (simp only: attemptBody_temperature temperature_values)
  have t1: "temperature (rq_options (attemptBody systemPrompt userPrompt model hasBody 1)) = decimal 4 10"
    by (simp only: attemptBody_temperature temperature_values)
  have t2: "temperature (rq_options (attemptBody systemPrompt userPrompt model hasBody 2))
       = (5404319552844596, - 53)"
    by (simp only: attemptBody_temperature temperature_values)
  have t2': "temperature (rq_options (attemptBody systemPrompt userPrompt model hasBody 2))
       = decimal 6000000000000001 10000000000000000"
    by (simp only: t2 decimal_values)
  have d: "decimal 6 10 = (5404319552844595, - 53)"
    by (rule decimal_values)
  have np: "num_predict (rq_options (attemptBody systemPrompt userPrompt model hasBody k)) = (if hasBody then 400 else 300)"
    and rp: "repeat_penalty (rq_options (attemptBody systemPrompt userPrompt model hasBody k)) = decimal 11 10"
    by (simp_all add: attemptBody_def maxTokens_def)
  have f: "3 \<le> length candidates \<longrightarrow>
        attemptLoop backend lc systemPrompt userPrompt model hasBody attempt candidates sent
          = (Inr candidates, sent)"
    by (simp add: attemptLoop_full)
  from a b c tk t0 t1 t2' t2 d np rp f show ?thesis
    by (intro conjI)
qed

text \<open>
  Witness for C8 (as amended): the first reply gives two candidates and the second
  fills the pool, so the loop sends two requests, the second at the temperature that
  \<open>0.4\<close> denotes, \<open>7205759403792794 * 2 ^ - 54\<close>, with 300 tokens; and a loop entered
  with three candidates in the pool sends nothing.
\<close>

theorem attemptLoop_schedule_witness:
  "snd (attemptLoop (\<lambda>n req. Response (if n = 0 then js ''Add a\<newline>Fix b'' else js ''Fix b\<newline>Drop c\<newline>More d''))
          asciiLower (js ''sys'') (js ''usr'') (js ''m'') False 0 [] [])
     = [attemptBody (js ''sys'') (js ''usr'') (js ''m'') False 0, attemptBody (js ''sys'') (js ''usr'') (js ''m'') False 1]
   \<and> temperature (rq_options (attemptBody (js ''sys'') (js ''usr'') (js ''m'') False 1)) = (7205759403792794, - 54)
   \<and> num_predict (rq_options (attemptBody (js ''sys'') (js ''usr'') (js ''m'') False 1)) = 300
   \<and> attemptLoop (\<lambda>n req. Response (js ''Add a'')) asciiLower (js ''sys'') (js ''usr'') (js ''m'') False
         1 [js ''One'', js ''Two'', js ''Three''] []
       = (Inr [js ''One'', js ''Two'', js ''Three''], [])"
proof -
  define be :: backend where
    "be = (\<lambda>n req. Response (if n = 0 then js ''Add a\<newline>Fix b'' else js ''Fix b\<newline>Drop c\<newline>More d''))"
  define s where "s = snd (attemptLoop be asciiLower (js ''sys'') (js ''usr'') (js ''m'') False 0 [] [])"
  define body where "body = attemptBody (js ''sys'') (js ''usr'') (js ''m'') False"
  have len: "length s = 2"
    unfolding s_def be_def by code_simp
  from attemptLoop_schedule [of be asciiLower "js ''sys''" "js ''usr''" "js ''m''" False 1]
  have k: "\<forall>k<length s. s ! k = body k"
    and t: "temperature (rq_options (body 1)) = decimal 4 10"
    and p: "num_predict (rq_options (body 1)) = (if False then 400 else 300)"
    unfolding s_def body_def by blast+
  have "s = map body [0..<length s]"
    by (rule nth_equalityI) (use k in simp_all)
  also have "\<dots> = [body 0, body 1]"
    by (simp add: len upt_rec)
  finally have s: "s = [body 0, body 1]" .
  have full: "3 \<le> length [js ''One'', js ''Two'', js ''Three'']"
    by simp
  from full attemptLoop_schedule [where candidates = "[js ''One'', js ''Two'', js ''Three'']"
      and backend = "\<lambda>n req. Response (js ''Add a'')" and lc = asciiLower and systemPrompt = "js ''sys''"
      and userPrompt = "js ''usr''" and model = "js ''m''" and hasBody = False and attempt = 1 and sent = "[]"]
  have f: "attemptLoop (\<lambda>n req. Response (js ''Add a'')) asciiLower (js ''sys'') (js ''usr'') (js ''m'') False
         1 [js ''One'', js ''Two'', js ''Three''] [] = (Inr [js ''One'', js ''Two'', js ''Three''], [])"
    by blast
  have "decimal 4 10 = (7205759403792794, - 54)"
    by (rule decimal_values)
  with t have t': "temperature (rq_options (body 1)) = (7205759403792794, - 54)" by simp
  from p have p': "num_predict (rq_options (body 1)) = 300" by simp
  from s t' p' f show ?thesis
    unfolding s_def body_def be_def by (intro conjI)
qed

text \<open>
  Counterexample to C8 as stated: the temperature of attempt 2 is not the number that
  \<open>0.6\<close> denotes. \<open>0.2 + 2 * 0.2\<close> is \<open>0.6000000000000001\<close> in binary64 arithmetic.
\<close>

theorem attempt_two_temperature_counterexample:
  "temperature (rq_options (attemptBody (js ''sys'') (js ''usr'') (js ''m'') False 2)) \<noteq> decimal 6 10
   \<and> valueOf (temperature (rq_options (attemptBody (js ''sys'') (js ''usr'') (js ''m'') False 2)))
       - valueOf (decimal 6 10) = 1 / 2 ^ 53"
proof -
  have "temperature (rq_options (attemptBody (js ''sys'') (js ''usr'') (js ''m'') False 2))
      = (5404319552844596, - 53)"
    by (simp only: attemptBody_temperature temperature_values)
  moreover have "decimal 6 10 = (5404319552844595, - 53)"
    by (rule decimal_values)
  ultimately show ?thesis
    by (simp add: valueOf_def pow2_def)
qed

lemma attemptLoop_step_empty:
  assumes "attempt < 3"
    and "backend (length sent) (attemptBody systemPrompt userPrompt model hasBody attempt) = Response raw"
    and "filterValidCommitMessages (parseResponse lc raw hasBody) hasBody = []"
  shows "attemptLoop backend lc systemPrompt userPrompt model hasBody attempt [] sent
    = attemptLoop backend lc systemPrompt userPrompt model hasBody (attempt + 1) []
        (sent @ [attemptBody systemPrompt userPrompt model hasBody attempt])"
  using assms
  by (simp add: attemptLoop.simps [of _ _ _ _ _ _ attempt] MAX_ATTEMPTS_def callOllama_def)

lemma generateCommitMessages_empty:
  assumes "attemptLoop backend lc systemPrompt userPrompt model hasBody 0 [] [] = (Inr [], sent)"
  shows "generateCommitMessages backend lc systemPrompt userPrompt model hasBody
      = (Inl (ProcessExit EmptyOrInvalidResponse), sent)"
    and "sent = map (attemptBody systemPrompt userPrompt model hasBody) [0, 1, 2]"
proof -
  from assms show "generateCommitMessages backend lc systemPrompt userPrompt model hasBody
      = (Inl (ProcessExit EmptyOrInvalidResponse), sent)"
    by (simp add: generateCommitMessages_def)
  from attemptLoop_sent [OF assms] obtain n where "n \<le> 3" "3 \<le> n"
    and s: "sent = map (attemptBody systemPrompt userPrompt model hasBody) [0..<n]"
    by (auto simp: MAX_ATTEMPTS_def)
  then have "n = 3" by simp
  moreover have "[0..<3] = [0, 1, 2]" by (simp add: upt_rec)
  ultimately show "sent = map (attemptBody systemPrompt userPrompt model hasBody) [0, 1, 2]"
    using s by simp
qed

lemma attemptLoop_all_empty:
  assumes 0: "backend 0 (attemptBody systemPrompt userPrompt model hasBody 0) = Response t0"
      "filterValidCommitMessages (parseResponse lc t0 hasBody) hasBody = []"
    and 1: "backend 1 (attemptBody systemPrompt userPrompt model hasBody 1) = Response t1"
      "filterValidCommitMessages (parseResponse lc t1 hasBody) hasBody = []"
    and 2: "backend 2 (attemptBody systemPrompt userPrompt model hasBody 2) = Response t2"
      "filterValidCommitMessages (parseResponse lc t2 hasBody) hasBody = []"
  shows "attemptLoop backend lc systemPrompt userPrompt model hasBody 0 [] []
    = (Inr [], map (attemptBody systemPrompt userPrompt model hasBody) [0, 1, 2])"
proof -
  let ?body = "attemptBody systemPrompt userPrompt model hasBody"
  have a: "attemptLoop backend lc systemPrompt userPrompt model hasBody 0 [] []
      = attemptLoop backend lc systemPrompt userPrompt model hasBody (0 + 1) [] ([] @ [?body 0])"
    by (rule attemptLoop_step_empty [where raw = t0]) (use 0 in simp_all)
  have b: "attemptLoop backend lc systemPrompt userPrompt model hasBody 1 [] [?body 0]
      = attemptLoop backend lc systemPrompt userPrompt model hasBody (1 + 1) [] ([?body 0] @ [?body 1])"
    by (rule attemptLoop_step_empty [where raw = t1]) (use 1 in simp_all)
  have c: "attemptLoop backend lc systemPrompt userPrompt model hasBody 2 [] [?body 0, ?body 1]
      = attemptLoop backend lc systemPrompt userPrompt model hasBody (2 + 1) [] ([?body 0, ?body 1] @ [?body 2])"
    by (rule attemptLoop_step_empty [where raw = t2]) (use 2 in \<open>simp_all add: numeral_2_eq_2\<close>)
  have d: "attemptLoop backend lc systemPrompt userPrompt model hasBody 3 [] [?body 0, ?body 1, ?body 2]
      = (Inr [], [?body 0, ?body 1, ?body 2])"
    by (simp add: attemptLoop.simps [of _ _ _ _ _ _ 3] MAX_ATTEMPTS_def)
  have n: "(0::nat) + 1 = 1" "(1::nat) + 1 = 2" "(2::nat) + 1 = 3" by simp_all
  from a b c d show ?thesis
    by (simp only: n append.simps list.map)
qed

text \<open>
  Claim C5. If the pool is empty when the loop ends, the controller does not return:
  it ends the process with the message that the model returned an empty or invalid
  response, and the requests of the invocation are the three requests of the loop and
  no other. In particular this is so whenever each of the three attempts gets a reply
  whose text yields no valid candidate.
\<close>

theorem empty_pool_is_fatal:
  "(attemptLoop backend lc systemPrompt userPrompt model hasBody 0 [] [] = (Inr [], sent)
      \<longrightarrow> generateCommitMessages backend lc systemPrompt userPrompt model hasBody
            = (Inl (ProcessExit EmptyOrInvalidResponse), sent)
          \<and> sent = map (attemptBody systemPrompt userPrompt model hasBody) [0, 1, 2])
   \<and> ((\<forall>k<3. \<exists>raw. backend k (attemptBody systemPrompt userPrompt model hasBody k) = Response raw
              \<and> filterValidCommitMessages (parseResponse lc raw hasBody) hasBody = [])
      \<longrightarrow> generateCommitMessages backend lc systemPrompt userPrompt model hasBody
            = (Inl (ProcessExit EmptyOrInvalidResponse),
               map (attemptBody systemPrompt userPrompt model hasBody) [0, 1, 2]))"
proof (intro conjI impI)
  assume "attemptLoop backend lc systemPrompt userPrompt model hasBody 0 [] [] = (Inr [], sent)"
  from generateCommitMessages_empty [OF this]
  show "generateCommitMessages backend lc systemPrompt userPrompt model hasBody
            = (Inl (ProcessExit EmptyOrInvalidResponse), sent)"
    and "sent = map (attemptBody systemPrompt userPrompt model hasBody) [0, 1, 2]"
    by simp_all
next
  let ?body = "attemptBody systemPrompt userPrompt model hasBody"
  let ?empty = "\<lambda>k raw. backend k (?body k) = Response raw
      \<and> filterValidCommitMessages (parseResponse lc raw hasBody) hasBody = []"
  assume h: "\<forall>k<3. \<exists>raw. backend k (?body k) = Response raw
      \<and> filterValidCommitMessages (parseResponse lc raw hasBody) hasBody = []"
  from h [rule_format, of 0] have "\<exists>raw. ?empty 0 raw" by simp
  then obtain t0 where 0: "?empty 0 t0" ..
  from h [rule_format, of 1] have "\<exists>raw. ?empty 1 raw" by simp
  then obtain t1 where 1: "?empty 1 t1" ..
  from h [rule_format, of 2] have "\<exists>raw. ?empty 2 raw" by simp
  then obtain t2 where 2: "?empty 2 t2" ..
  from 0 1 2 have "attemptLoop backend lc systemPrompt userPrompt model hasBody 0 [] []
      = (Inr [], map ?body [0, 1, 2])"
    by (intro attemptLoop_all_empty [where ?t0.0 = t0 and ?t1.0 = t1 and ?t2.0 = t2]) blast+
  from generateCommitMessages_empty(1) [OF this]
  show "generateCommitMessages backend lc systemPrompt userPrompt model hasBody
      = (Inl (ProcessExit EmptyOrInvalidResponse), map ?body [0, 1, 2])" .
qed

text \<open>
  Witness for C5: an empty reply, a reply that is a malformed list fragment and a
  reply that holds a code fence; none yields a valid single-line candidate.
\<close>

theorem empty_pool_is_fatal_witness:
  "generateCommitMessages
     (\<lambda>n req. Response (if n = 0 then js '''' else if n = 1 then js ''- one - two'' else js ''x ``` y''))
     asciiLower (js ''sys'') (js ''usr'') (js ''m'') False
   = (Inl (ProcessExit EmptyOrInvalidResponse),
      map (attemptBody (js ''sys'') (js ''usr'') (js ''m'') False) [0, 1, 2])"
proof -
  let ?be = "\<lambda>(n::nat) (req::GenerateRequest).
    Response (if n = 0 then js '''' else if n = 1 then js ''- one - two'' else js ''x ``` y'')"
  have e: "filterValidCommitMessages (parseResponse asciiLower (js '''') False) False = []"
    "filterValidCommitMessages (parseResponse asciiLower (js ''- one - two'') False) False = []"
    "filterValidCommitMessages (parseResponse asciiLower (js ''x ``` y'') False) False = []"
    by code_simp+
  have "\<forall>k<3. \<exists>raw. ?be k (attemptBody (js ''sys'') (js ''usr'') (js ''m'') False k) = Response raw
      \<and> filterValidCommitMessages (parseResponse asciiLower raw False) False = []"
    using e by simp
  with empty_pool_is_fatal [of ?be asciiLower "js ''sys''" "js ''usr''" "js ''m''" False]
  show ?thesis by blast
qed

section \<open>Properties of the controller\<close>

lemma splitNewline_nonempty: "splitNewline s \<noteq> []"
  by (induction s) (auto split: list.splits)

lemma hd_splitNewline: "hd (splitNewline s) = takeWhile (\<lambda>c. c \<noteq> 0x0A) s"
proof (induction s)
  case Nil
  then show ?case by simp
next
  case (Cons c cs)
  then show ?case
    using splitNewline_nonempty [of cs] by (cases "splitNewline cs") auto
qed

lemma firstLine_le: "length (hd (splitNewline s)) \<le> length s"
  by (simp add: hd_splitNewline length_takeWhile_le)

lemma firstLine_append: "hd (splitNewline (a @ 0x0A # b)) = hd (splitNewline a)"
proof (cases "\<forall>c\<in>set a. c \<noteq> 0x0A")
  case True
  then have "takeWhile (\<lambda>c. c \<noteq> 0x0A) a = a"
    by (simp only: takeWhile_eq_all_conv)
  with True show ?thesis by (simp add: hd_splitNewline del: takeWhile_eq_all_conv)
next
  case False
  then show ?thesis by (auto simp: hd_splitNewline)
qed

lemma firstLine_join: "hd (splitNewline (joinNewline (l # ls))) = hd (splitNewline l)"
  by (cases ls) (simp_all add: firstLine_append)

lemma truncated_length: "72 < length message \<Longrightarrow> length (truncated message) = 72"
  by (simp add: truncated_def js_def)

lemma validateSubjectLength_le:
  assumes "validateSubjectLength backend message model sent = (Inr r, sent')"
  shows "length r \<le> 72"
proof (cases "length message \<le> 72")
  case True
  with assms show ?thesis by (simp add: validateSubjectLength_def)
next
  case False
  then have t: "length (truncated message) = 72" by (simp add: truncated_length)
  from False assms have "r = truncated message \<or> length r \<le> 72"
    by (auto simp: validateSubjectLength_def Let_def
        split: prod.splits sum.splits failure.splits if_splits)
  with t show ?thesis by auto
qed

lemma validateBodySubjectLength_le:
  assumes "validateBodySubjectLength backend message model sent = (Inr r, sent')"
  shows "length (hd (splitNewline r)) \<le> 72"
proof (cases "hd (splitNewline message) = [] \<or> length (hd (splitNewline message)) \<le> 72")
  case True
  with assms have "r = message" by (auto simp: validateBodySubjectLength_def Let_def)
  with True show ?thesis by auto
next
  case False
  obtain l ls where s: "splitNewline message = l # ls"
    using splitNewline_nonempty [of message] by (cases "splitNewline message") auto
  from False assms obtain shortened where
    v: "validateSubjectLength backend (hd (splitNewline message)) model sent = (Inr shortened, sent')"
    and r: "r = joinNewline ((splitNewline message)[0 := shortened])"
    by (auto simp: validateBodySubjectLength_def Let_def split: prod.splits sum.splits)
  from r s have "hd (splitNewline r) = hd (splitNewline shortened)"
    by (simp add: firstLine_join)
  with firstLine_le [of shortened] validateSubjectLength_le [OF v] show ?thesis
    by simp
qed

lemma validateAll_Inr:
  assumes v: "\<And>c sent r sent'. validate c sent = (Inr r, sent') \<Longrightarrow> P r"
  shows "validateAll validate cs sent = (Inr rs, sent') \<Longrightarrow> length rs = length cs \<and> (\<forall>r\<in>set rs. P r)"
proof (induction cs arbitrary: sent rs sent')
  case Nil
  then show ?case by simp
next
  case (Cons c cs)
  obtain r s1 where 1: "validate c sent = (r, s1)" by (cases "validate c sent")
  obtain rs' s2 where 2: "validateAll validate cs s1 = (rs', s2)" by (cases "validateAll validate cs s1")
  from Cons.prems 1 2 obtain x xs where r: "r = Inr x" and rs': "rs' = Inr xs" and rs: "rs = x # xs"
    by (auto split: sum.splits)
  from 1 r have "P x" by (auto intro: v)
  moreover from Cons.IH [of s1 xs s2] 2 rs' have "length xs = length cs \<and> (\<forall>r\<in>set xs. P r)"
    by simp
  ultimately show ?case using rs by simp
qed

text \<open>
  Claim C1. Whenever the generation controller returns, in either mode, for every
  backend and every lower-casing function, the returned list has 1 to 3 members and
  the first line of every member (the text before its first line feed) is at most 72
  code units long.
\<close>

theorem generateCommitMessages_contract:
  assumes "generateCommitMessages backend lc systemPrompt userPrompt model hasBody = (Inr result, sent)"
  shows "1 \<le> length result \<and> length result \<le> 3
    \<and> (\<forall>c\<in>set result. length (hd (splitNewline c)) \<le> 72)"
proof -
  obtain r s0 where l: "attemptLoop backend lc systemPrompt userPrompt model hasBody 0 [] [] = (r, s0)"
    by (cases "attemptLoop backend lc systemPrompt userPrompt model hasBody 0 [] []")
  from assms l obtain candidates where r: "r = Inr candidates"
    by (cases r) (auto simp: generateCommitMessages_def)
  define pool where "pool = take 3 candidates"
  from assms l r have ne: "pool \<noteq> []"
    by (auto simp: generateCommitMessages_def Let_def pool_def simp del: take_eq_Nil split: if_splits)
  have "length pool \<le> 3"
    by (simp add: pool_def)
  moreover have "1 \<le> length pool"
    using ne by (cases pool) simp_all
  ultimately have len: "1 \<le> length pool \<and> length pool \<le> 3" by simp
  show ?thesis
  proof (cases hasBody)
    case True
    with assms l r ne have "validateAll (\<lambda>c. validateBodySubjectLength backend c model) pool s0 = (Inr result, sent)"
      by (simp add: generateCommitMessages_def Let_def pool_def del: take_eq_Nil)
    then have "length result = length pool \<and> (\<forall>c\<in>set result. length (hd (splitNewline c)) \<le> 72)"
      by (rule validateAll_Inr [rotated]) (rule validateBodySubjectLength_le)
    with len show ?thesis by simp
  next
    case False
    with assms l r ne have "validateAll (\<lambda>c. validateSubjectLength backend c model) pool s0 = (Inr result, sent)"
      by (simp add: generateCommitMessages_def Let_def pool_def del: take_eq_Nil)
    then have "length result = length pool \<and> (\<forall>c\<in>set result. length c \<le> 72)"
      by (rule validateAll_Inr [rotated]) (rule validateSubjectLength_le)
    with len firstLine_le show ?thesis
      by (auto intro: order_trans)
  qed
qed

text \<open>
  Witness for C1: in single-line mode a reply with three lines, the third of 73
  characters, repaired by the reply to the repair request; in subject+body mode a
  candidate with a subject of 73 characters whose repair request gets an undecodable
  reply, so that the subject is truncated.
\<close>

theorem generateCommitMessages_contract_witness:
  "fst (generateCommitMessages
         (\<lambda>n req. Response (if n = 0 then js ''Add feature\<newline>Fix bug\<newline>'' @ replicate 73 0x61 else js ''Shorter subject''))
         asciiLower (js ''sys'') (js ''usr'') (js ''m'') False)
     = Inr [js ''Add feature'', js ''Fix bug'', js ''Shorter subject'']
   \<and> length (hd (splitNewline (js ''Shorter subject''))) \<le> 72
   \<and> fst (generateCommitMessages
         (\<lambda>n req. if n < 3 then Response (replicate 73 0x61 @ js ''\<newline>\<newline>- detail'') else Undecodable)
         asciiLower (js ''sys'') (js ''usr'') (js ''m'') True)
     = Inr [replicate 69 0x61 @ js ''...\<newline>\<newline>- detail'']
   \<and> length (hd (splitNewline (replicate 69 0x61 @ js ''...\<newline>\<newline>- detail''))) \<le> 72"
proof -
  define g1 where "g1 = generateCommitMessages
      (\<lambda>n req. Response (if n = 0 then js ''Add feature\<newline>Fix bug\<newline>'' @ replicate 73 0x61 else js ''Shorter subject''))
      asciiLower (js ''sys'') (js ''usr'') (js ''m'') False"
  define g2 where "g2 = generateCommitMessages
      (\<lambda>n req. if n < 3 then Response (replicate 73 0x61 @ js ''\<newline>\<newline>- detail'') else Undecodable)
      asciiLower (js ''sys'') (js ''usr'') (js ''m'') True"
  have e1: "fst g1 = Inr [js ''Add feature'', js ''Fix bug'', js ''Shorter subject'']"
    unfolding g1_def by code_simp
  have e2: "fst g2 = Inr [replicate 69 0x61 @ js ''...\<newline>\<newline>- detail'']"
    unfolding g2_def by code_simp
  from e1 have "g1 = (Inr [js ''Add feature'', js ''Fix bug'', js ''Shorter subject''], snd g1)"
    by (metis prod.collapse)
  from generateCommitMessages_contract [OF this [unfolded g1_def]]
  have c1: "length (hd (splitNewline (js ''Shorter subject''))) \<le> 72"
    by simp
  from e2 have "g2 = (Inr [replicate 69 0x61 @ js ''...\<newline>\<newline>- detail''], snd g2)"
    by (metis prod.collapse)
  from generateCommitMessages_contract [OF this [unfolded g2_def]]
  have c2: "length (hd (splitNewline (replicate 69 0x61 @ js ''...\<newline>\<newline>- detail''))) \<le> 72"
    by simp
  from e1 c1 e2 c2 show ?thesis
    unfolding g1_def g2_def by (intro conjI)
qed

section \<open>Where the controller departs from its specification\<close>

text \<open>
  Claim C2 (the code at a failing input). The claim says that no two returned
  candidates are equal under case-insensitive comparison and that the merge of an
  attempt into the pool skips a candidate present in another casing. The merge tests
  \<open>candidates.includes(c)\<close>, which compares the strings themselves, while
  \<open>dedupeCandidates\<close> compares lower-cased keys. Three attempts that reply
  \<open>Add feature\<close>, \<open>add feature\<close> and \<open>ADD FEATURE\<close> give a returned list with all
  three, although \<open>dedupeCandidates\<close> keeps one of them.
\<close>

theorem merge_admits_case_variants:
  "fst (generateCommitMessages
         (\<lambda>n req. Response (if n = 0 then js ''Add feature'' else if n = 1 then js ''add feature'' else js ''ADD FEATURE''))
         asciiLower (js ''sys'') (js ''usr'') (js ''m'') False)
     = Inr [js ''Add feature'', js ''add feature'', js ''ADD FEATURE'']
   \<and> asciiLower (js ''Add feature'') = asciiLower (js ''add feature'')
   \<and> mergeParsed [js ''Add feature''] [js ''add feature''] = [js ''Add feature'', js ''add feature'']
   \<and> dedupeCandidates asciiLower [js ''Add feature'', js ''add feature''] = [js ''Add feature'']"
  by code_simp

text \<open>
  Claim C3 (the code at a failing input). The claim says that in single-line mode no
  returned candidate holds a line feed, also when it comes from the length-repair
  request. The validity filter rejects a candidate of several lines in single-line
  mode, but the result of the repair request is only cleaned and measured, not
  filtered. A candidate of 73 characters whose repair request is answered with two
  short lines is replaced by these two lines.
\<close>

theorem repair_result_keeps_line_feed:
  "fst (generateCommitMessages
         (\<lambda>n req. if n < 3 then Response (replicate 73 0x61) else Response (js ''Fix a\<newline>bug''))
         asciiLower (js ''sys'') (js ''usr'') (js ''m'') False)
     = Inr [js ''Fix a\<newline>bug'']
   \<and> 0x0A \<in> set (js ''Fix a\<newline>bug'')
   \<and> \<not> isValidCommitMessage (js ''Fix a\<newline>bug'') False"
  by code_simp

text \<open>
  Claim C4 (the code at a failing input). The claim says that a failure of the
  length-repair call is never fatal and is always made up for by truncation. The
  \<open>try\<close> block of \<open>validateSubjectLength\<close> catches exceptions, and an undecodable
  reply is made up for by truncation; but on an unreachable backend or an HTTP error
  status \<open>callOllama\<close> calls \<open>process.exit(1)\<close>, which no \<open>catch\<close> sees, and the
  invocation ends without a result.
\<close>

theorem repair_transport_failure_is_fatal:
  "fst (generateCommitMessages
         (\<lambda>n req. if n < 3 then Response (replicate 73 0x61) else Unreachable)
         asciiLower (js ''sys'') (js ''usr'') (js ''m'') False)
     = Inl (ProcessExit CouldNotConnect)
   \<and> fst (generateCommitMessages
         (\<lambda>n req. if n < 3 then Response (replicate 73 0x61) else HttpError)
         asciiLower (js ''sys'') (js ''usr'') (js ''m'') False)
     = Inl (ProcessExit ReturnedHttpStatus)
   \<and> fst (generateCommitMessages
         (\<lambda>n req. if n < 3 then Response (replicate 73 0x61) else Undecodable)
         asciiLower (js ''sys'') (js ''usr'') (js ''m'') False)
     = Inr [replicate 69 0x61 @ js ''...'']"
  by code_simp

text \<open>
  Claim C10 (the code at a failing input). The claim says that in subject+body mode
  the lines after the first are returned unchanged. The repaired subject replaces
  \<open>lines[0]\<close> before the lines are joined; a repair reply of two lines (see C3) makes
  the result one line longer, so the lines after the first of the result are not those
  of the candidate.
\<close>

theorem repair_result_adds_lines:
  "fst (generateCommitMessages
         (\<lambda>n req. if n < 3 then Response (replicate 73 0x61 @ js ''\<newline>\<newline>- detail'') else Response (js ''x\<newline>y''))
         asciiLower (js ''sys'') (js ''usr'') (js ''m'') True)
     = Inr [js ''x\<newline>y\<newline>\<newline>- detail'']
   \<and> tl (splitNewline (replicate 73 0x61 @ js ''\<newline>\<newline>- detail'')) = [js '''', js ''- detail'']
   \<and> tl (splitNewline (js ''x\<newline>y\<newline>\<newline>- detail'')) = [js ''y'', js '''', js ''- detail'']"
  by code_simp

end
